theory Spec2Isabelle
  imports Complex_Main
begin

section \<open>Data model of the HDR creation manager\<close>

text \<open>
  The development follows \<^verbatim>\<open>src/HdrWizard/HdrCreationManager.cpp\<close>. C++ \<^verbatim>\<open>float\<close>
  values are read as real numbers: rounding, infinities and NaN are outside the model.
  A \<^verbatim>\<open>pfs::Channel\<close> / \<^verbatim>\<open>Array2Df\<close> is the row-major list of its samples.
\<close>

type_synonym Array2Df = "real list"

text \<open>
  \<^verbatim>\<open>pfs::Frame\<close>: its size and the three channels that \<^verbatim>\<open>getXYZChannels\<close> looks up
  by name; a channel that is absent is \<open>None\<close> (the C++ returns null pointers).
\<close>

record Frame =
  getWidth :: nat
  getHeight :: nat
  chanX :: "Array2Df option"
  chanY :: "Array2Df option"
  chanZ :: "Array2Df option"

text \<open>
  Modelled from the spec: the class \<^verbatim>\<open>HdrCreationItem\<close> (HdrCreationItem.h) is not among
  the sources. The spec lists its attributes: source identifier, exposure value (which may
  be unknown), average scene luminance, bit depth, validity flag, and the pixel frame. The
  fields carry the names of the accessors that the manager calls.
\<close>

record HdrCreationItem =
  filename :: string
  frame :: Frame
  hasEV :: bool
  getEV :: real
  getAverageLuminance :: real
  getBitDepth :: nat
  isValid :: bool

text \<open>The signals that the manager emits, kept in emission order.\<close>

datatype signal =
    errorWhileLoading string
  | finishedLoadingFiles
  | loadFilesAborted
  | progressStarted
  | progressFinished
  | progressRangeChanged nat nat
  | progressValueChanged nat

text \<open>
  The members of \<^verbatim>\<open>HdrCreationManager\<close> that the functions below read or write.
  \<open>watcherCanceled\<close> and \<open>watcherRunning\<close> are what \<^verbatim>\<open>m_futureWatcher.isCanceled()\<close>
  and \<^verbatim>\<open>isRunning()\<close> answer; \<open>loadFilesDoneConnected\<close> counts the connections of the
  watcher's \<^verbatim>\<open>finished()\<close> signal to the slot \<^verbatim>\<open>loadFilesDone()\<close>. The array
  \<^verbatim>\<open>bool m_patches[agGridSize][agGridSize]\<close> is a function of its two indices, of which
  only indices below \<^verbatim>\<open>agGridSize\<close> are ever read or written.
\<close>

record manager =
  m_data :: "HdrCreationItem list"
  m_tmpdata :: "HdrCreationItem list"
  m_evOffset :: real
  watcherCanceled :: bool
  watcherRunning :: bool
  loadFilesDoneConnected :: nat
  m_isLoadResponseCurve :: bool
  m_agGoodImageIndex :: int
  m_patches :: "nat \<Rightarrow> nat \<Rightarrow> bool"
  m_agMask :: "Array2Df option"
  emitted :: "signal list"

definition emit :: "signal \<Rightarrow> manager \<Rightarrow> manager" where
  "emit sg s = s\<lparr>emitted := emitted s @ [sg]\<rparr>"

definition availableInputFiles :: "manager \<Rightarrow> nat" where
  "availableInputFiles s = length (m_data s)"

section \<open>The EV offset\<close>

text \<open>The loop of \<^verbatim>\<open>refreshEVOffset\<close> that collects the EV of every item that has one.\<close>

definition collectEVs :: "HdrCreationItem list \<Rightarrow> real list" where
  "collectEVs items =
     fold (\<lambda>hdrCreationItem evs.
             if hasEV hdrCreationItem then evs @ [getEV hdrCreationItem] else evs) items []"

definition refreshEVOffset :: "manager \<Rightarrow> manager" where
  "refreshEVOffset s =
     (if length (m_data s) \<le> 0 then s\<lparr>m_evOffset := 0\<rparr>
      else let evs = collectEVs (m_data s) in
        if length evs \<le> 0 then s\<lparr>m_evOffset := 0\<rparr>
        else if length evs = 1 then s\<lparr>m_evOffset := evs ! 0\<rparr>
        else s\<lparr>m_evOffset := sort evs ! ((length evs + 1) div 2 - 1)\<rparr>)"

section \<open>The exposure store: loading, merging, geometry check, reset\<close>

definition checkFileName :: "HdrCreationItem \<Rightarrow> string \<Rightarrow> bool" where
  "checkFileName item str = (filename item = str)"

text \<open>
  Modelled from the spec: the constructor \<^verbatim>\<open>HdrCreationItem(filename)\<close> is not among the
  sources. The spec says that an item is created on a load request and populated
  asynchronously by the loading task: the new item carries its source identifier, an empty
  frame, no EV, and is not yet valid.
\<close>

definition newHdrCreationItem :: "string \<Rightarrow> HdrCreationItem" where
  "newHdrCreationItem name =
     \<lparr>filename = name,
      frame = \<lparr>getWidth = 0, getHeight = 0, chanX = None, chanY = None, chanZ = None\<rparr>,
      hasEV = False, getEV = 0, getAverageLuminance = 0, getBitDepth = 0, isValid = False\<rparr>"

text \<open>
  \<^verbatim>\<open>loadFiles\<close>: each file name is looked up with \<^verbatim>\<open>find_if\<close> in \<^verbatim>\<open>m_data\<close> only; a
  name that is not found there is scheduled in \<^verbatim>\<open>m_tmpdata\<close>. Then the slot is connected
  and the watcher gets a new future over \<^verbatim>\<open>m_tmpdata\<close>.
\<close>

definition scheduleFile :: "string \<Rightarrow> manager \<Rightarrow> manager" where
  "scheduleFile fname s =
     (if find (\<lambda>item. checkFileName item fname) (m_data s) = None
      then s\<lparr>m_tmpdata := m_tmpdata s @ [newHdrCreationItem fname]\<rparr>
      else s)"

definition loadFiles :: "string list \<Rightarrow> manager \<Rightarrow> manager" where
  "loadFiles filenames s =
     (fold scheduleFile filenames s)
       \<lparr>loadFilesDoneConnected := Suc (loadFilesDoneConnected (fold scheduleFile filenames s)),
        watcherRunning := True, watcherCanceled := False\<rparr>"

text \<open>
  The future started by \<^verbatim>\<open>loadFiles\<close> runs the functor \<^verbatim>\<open>LoadFile\<close> (not among the
  sources, hence a parameter) on every pending item in place; \<open>None\<close> stands for a thrown
  exception. As the comment in \<^verbatim>\<open>loadFilesDone\<close> says, a thrown exception is seen as a
  cancelled future, as is a cancellation requested through \<^verbatim>\<open>progressCancel\<close>.
\<close>

definition futureFinished ::
  "(HdrCreationItem \<Rightarrow> HdrCreationItem option) \<Rightarrow> bool \<Rightarrow> manager \<Rightarrow> manager" where
  "futureFinished LoadFile cancelRequested s =
     s\<lparr>m_tmpdata := map (\<lambda>item. case LoadFile item of None \<Rightarrow> item | Some item' \<Rightarrow> item')
                         (m_tmpdata s),
       watcherCanceled := (cancelRequested \<or> list_ex (\<lambda>item. LoadFile item = None) (m_tmpdata s)),
       watcherRunning := False\<rparr>"

text \<open>
  \<^verbatim>\<open>framesHaveSameSize\<close> reads \<^verbatim>\<open>m_data[0]\<close> without a check: on an empty store the C++
  is undefined, which is \<open>None\<close> here. The loop returns false at the first item whose
  width or height differs from those of the first item.
\<close>

fun sameSizeLoop :: "nat \<Rightarrow> nat \<Rightarrow> HdrCreationItem list \<Rightarrow> bool" where
  "sameSizeLoop width height [] = True"
| "sameSizeLoop width height (it # its) =
     (if getWidth (frame it) \<noteq> width \<or> getHeight (frame it) \<noteq> height then False
      else sameSizeLoop width height its)"

definition framesHaveSameSize :: "manager \<Rightarrow> bool option" where
  "framesHaveSameSize s =
     (case m_data s of
        [] \<Rightarrow> None
      | first # rest \<Rightarrow>
          Some (sameSizeLoop (getWidth (frame first)) (getHeight (frame first)) rest))"

definition msgErrorLoading :: string where
  "msgErrorLoading = ''HdrCreationManager::loadFilesDone(): Error loading a file.''"

definition msgDifferentSize :: string where
  "msgDifferentSize = ''HdrCreationManager::loadFilesDone(): The images have different size.''"

text \<open>
  The response-curve block of \<^verbatim>\<open>loadFilesDone\<close>. It reads \<^verbatim>\<open>m_tmpdata[0]\<close> without a
  check (undefined on an empty batch, \<open>None\<close>). \<open>readFromFile\<close> is the outcome of
  \<^verbatim>\<open>m_response->readFromFile\<close>: \<open>Some msg\<close> is a caught \<^verbatim>\<open>std::runtime_error\<close>.
\<close>

definition loadResponseCurve :: "string option \<Rightarrow> manager \<Rightarrow> manager option" where
  "loadResponseCurve readFromFile s =
     (if m_isLoadResponseCurve s then
        (case m_tmpdata s of
           [] \<Rightarrow> None
         | first # rest \<Rightarrow>
             (case readFromFile of
                None \<Rightarrow> Some (s\<lparr>m_isLoadResponseCurve := False\<rparr>)
              | Some what \<Rightarrow> Some (emit (errorWhileLoading what) s)))
      else Some s)"

definition mergeItem :: "HdrCreationItem \<Rightarrow> manager \<Rightarrow> manager" where
  "mergeItem hdrCreationItem s =
     (if isValid hdrCreationItem then s\<lparr>m_data := m_data s @ [hdrCreationItem]\<rparr> else s)"

definition checkSizes :: "manager \<Rightarrow> manager option" where
  "checkSizes s =
     (case framesHaveSameSize s of
        None \<Rightarrow> None
      | Some same \<Rightarrow>
          if \<not> same then Some (emit (errorWhileLoading msgDifferentSize) (s\<lparr>m_data := []\<rparr>))
          else Some (emit finishedLoadingFiles s))"

definition loadFilesDone :: "string option \<Rightarrow> manager \<Rightarrow> manager option" where
  "loadFilesDone readFromFile s =
     (if watcherCanceled s then
        Some ((emit (errorWhileLoading msgErrorLoading) s)
                \<lparr>loadFilesDoneConnected := 0, m_tmpdata := []\<rparr>)
      else
        (case loadResponseCurve readFromFile s of
           None \<Rightarrow> None
         | Some s1 \<Rightarrow>
             checkSizes
               (refreshEVOffset
                  ((fold mergeItem (m_tmpdata s1) (s1\<lparr>loadFilesDoneConnected := 0\<rparr>))
                     \<lparr>m_tmpdata := []\<rparr>))))"

text \<open>
  \<^verbatim>\<open>removeFile\<close> asserts that the index is in range; a failed assertion is \<open>None\<close>.
\<close>

definition removeFile :: "int \<Rightarrow> manager \<Rightarrow> manager option" where
  "removeFile idx s =
     (if idx \<ge> 0 \<and> idx < int (length (m_data s))
      then Some (refreshEVOffset
                   (s\<lparr>m_data := take (nat idx) (m_data s) @ drop (Suc (nat idx)) (m_data s)\<rparr>))
      else None)"

text \<open>
  \<^verbatim>\<open>reset\<close>. The calls on the \<^verbatim>\<open>Align\<close> object touch only that object and its temporary
  files, which are not part of the state here.
\<close>

definition reset :: "manager \<Rightarrow> manager" where
  "reset s =
     (let s1 = (if watcherRunning s
                then emit loadFilesAborted (s\<lparr>watcherCanceled := True, watcherRunning := False\<rparr>)
                else s)
      in s1\<lparr>loadFilesDoneConnected := 0, m_data := [], m_tmpdata := []\<rparr>)"

section \<open>Ghost detection on the patch grid\<close>

text \<open>
  \<^verbatim>\<open>computePatches\<close> calls functions of \<^verbatim>\<open>AutoAntighosting.h\<close>, which is not among the
  sources; they are parameters of the model, gathered in one record, together with the
  constant \<^verbatim>\<open>agGridSize\<close> declared there and \<^verbatim>\<open>log2\<close> on floats. \<open>hueSquaredMean\<close>
  returns the vector \<^verbatim>\<open>HE\<close> that the C++ function fills, \<open>sdv\<close> returns the three values
  that the C++ function writes through \<^verbatim>\<open>sR\<close>, \<^verbatim>\<open>sG\<close>, \<^verbatim>\<open>sB\<close>.
\<close>

type_synonym patches = "nat \<Rightarrow> nat \<Rightarrow> bool"

record ghost_ops =
  agGridSize :: nat
  hueSquaredMean :: "HdrCreationItem list \<Rightarrow> real list"
  findIndex :: "real list \<Rightarrow> int \<Rightarrow> int"
  log2 :: "real \<Rightarrow> real"
  sdv :: "HdrCreationItem \<Rightarrow> HdrCreationItem \<Rightarrow> real \<Rightarrow> int \<Rightarrow> int \<Rightarrow> real \<times> real \<times> real"
  comparePatches :: "HdrCreationItem \<Rightarrow> HdrCreationItem \<Rightarrow> nat \<Rightarrow> nat \<Rightarrow> nat \<Rightarrow> nat \<Rightarrow> real
     \<Rightarrow> real \<Rightarrow> real \<Rightarrow> real \<Rightarrow> real \<Rightarrow> int \<Rightarrow> int \<Rightarrow> bool"

definition setPatch :: "nat \<Rightarrow> nat \<Rightarrow> bool \<Rightarrow> patches \<Rightarrow> patches" where
  "setPatch i j v m = m(i := (m i)(j := v))"

text \<open>
  The loop that sets every cell of \<^verbatim>\<open>m_patches\<close> to false before the comparison.
\<close>

definition clearPatches :: "nat \<Rightarrow> patches \<Rightarrow> patches" where
  "clearPatches G m = fold (\<lambda>j. fold (\<lambda>i. setPatch i j False) [0..<G]) [0..<G] m"

text \<open>
  The body of the loop over \<^verbatim>\<open>h\<close> for one image other than the reference image: exposure
  difference, residual offset, the statistics of \<^verbatim>\<open>sdv\<close>, and the two nested loops
  over the grid, which set a cell to true when \<^verbatim>\<open>comparePatches\<close> says so and never set
  one to false.
\<close>

definition comparePass ::
  "ghost_ops \<Rightarrow> real \<Rightarrow> (int \<times> int) list \<Rightarrow> HdrCreationItem list \<Rightarrow> nat \<Rightarrow> nat \<Rightarrow> nat \<Rightarrow> nat
     \<Rightarrow> patches \<Rightarrow> patches" where
  "comparePass ops threshold HV_offset items good gridX gridY h m =
     (let deltaEV = log2 ops (getAverageLuminance (items ! good))
                      - log2 ops (getAverageLuminance (items ! h));
          dx = fst (HV_offset ! good) - fst (HV_offset ! h);
          dy = snd (HV_offset ! good) - snd (HV_offset ! h);
          (sR, sG, sB) = sdv ops (items ! good) (items ! h) deltaEV dx dy
      in fold (\<lambda>j. fold (\<lambda>i m. if comparePatches ops (items ! good) (items ! h) i j gridX gridY
                                     threshold sR sG sB deltaEV dx dy
                                 then setPatch i j True m else m)
                          [0..<agGridSize ops])
              [0..<agGridSize ops] m)"

text \<open>
  The loop over \<^verbatim>\<open>h\<close>. The reference index comes from \<^verbatim>\<open>findIndex\<close> as an \<^verbatim>\<open>int\<close>;
  \<^verbatim>\<open>m_data[m_agGoodImageIndex]\<close> and \<^verbatim>\<open>HV_offset[...]\<close> are read without a check, and an
  index out of range is \<open>None\<close>.
\<close>

fun patchLoop ::
  "ghost_ops \<Rightarrow> real \<Rightarrow> (int \<times> int) list \<Rightarrow> HdrCreationItem list \<Rightarrow> int \<Rightarrow> nat \<Rightarrow> nat
     \<Rightarrow> nat list \<Rightarrow> patches \<Rightarrow> patches option" where
  "patchLoop ops threshold HV_offset items good gridX gridY [] m = Some m"
| "patchLoop ops threshold HV_offset items good gridX gridY (h # hs) m =
     (if int h = good then patchLoop ops threshold HV_offset items good gridX gridY hs m
      else if good < 0 \<or> nat good \<ge> length items \<or> nat good \<ge> length HV_offset
                \<or> h \<ge> length HV_offset then None
      else patchLoop ops threshold HV_offset items good gridX gridY hs
             (comparePass ops threshold HV_offset items (nat good) gridX gridY h m))"

definition countPatches :: "nat \<Rightarrow> patches \<Rightarrow> nat" where
  "countPatches G m =
     fold (\<lambda>i. fold (\<lambda>j count. if m i j = True then count + 1 else count) [0..<G]) [0..<G] 0"

text \<open>
  \<^verbatim>\<open>memcpy(patches, m_patches, agGridSize*agGridSize)\<close>: the caller receives the rows of the
  grid.
\<close>

definition copyPatches :: "nat \<Rightarrow> patches \<Rightarrow> bool list list" where
  "copyPatches G m = map (\<lambda>i. map (\<lambda>j. m i j) [0..<G]) [0..<G]"

text \<open>
  \<^verbatim>\<open>computePatches\<close> returns the new manager state and the three outputs: the mask copied
  to \<^verbatim>\<open>patches\<close>, \<^verbatim>\<open>percent\<close>, and the returned reference index. Reading
  \<^verbatim>\<open>m_data[0]\<close> of an empty store, a grid size of zero (a division by zero) and the failed
  assertion \<^verbatim>\<open>size >= 2\<close> are \<open>None\<close>.
\<close>

definition computePatches ::
  "ghost_ops \<Rightarrow> real \<Rightarrow> (int \<times> int) list \<Rightarrow> manager
     \<Rightarrow> (manager \<times> bool list list \<times> real \<times> int) option" where
  "computePatches ops threshold HV_offset s =
     (if m_data s = [] \<or> agGridSize ops = 0 then None
      else
        let width = getWidth (frame (m_data s ! 0));
            height = getHeight (frame (m_data s ! 0));
            gridX = width div agGridSize ops;
            gridY = height div agGridSize ops;
            size = length (m_data s)
        in if \<not> size \<ge> 2 then None
           else
             let HE = hueSquaredMean ops (m_data s);
                 good = findIndex ops HE (int size)
             in (case patchLoop ops threshold HV_offset (m_data s) good gridX gridY
                        [0..<size] (clearPatches (agGridSize ops) (m_patches s)) of
                   None \<Rightarrow> None
                 | Some m \<Rightarrow>
                     let count = countPatches (agGridSize ops) m;
                         percent = real count / real (agGridSize ops * agGridSize ops) * 100
                     in Some (s\<lparr>m_agGoodImageIndex := good, m_patches := m\<rparr>,
                              copyPatches (agGridSize ops) m, percent, good)))"

section \<open>The deghosting solver\<close>

text \<open>
  \<^verbatim>\<open>doAntiGhosting\<close> calls the fusion operator and the array functions of
  \<^verbatim>\<open>AutoAntighosting.h\<close>, \<^verbatim>\<open>pde.h\<close> and \<^verbatim>\<open>WhiteBalance.h\<close>, none of which is among
  the sources; they are parameters. A function that writes its result into an array passed
  by reference returns that array here. \<open>newArray2Df\<close> gives the contents of an array as
  \<^verbatim>\<open>Array2Df(width, height)\<close> allocates it, before anything is written to it.
\<close>

type_synonym gradient = "Array2Df \<times> Array2Df"

record solver_ops =
  computeFusion :: "(Frame \<times> real \<times> nat) list \<Rightarrow> Frame"
  pow :: "real \<Rightarrow> real \<Rightarrow> real"
  newArray2Df :: "nat \<Rightarrow> nat \<Rightarrow> Array2Df"
  computeLogIrradiance :: "Array2Df \<Rightarrow> Array2Df"
  computeGradient :: "Array2Df \<Rightarrow> gradient"
  blendGradientsMask :: "gradient \<Rightarrow> gradient \<Rightarrow> Array2Df \<Rightarrow> gradient"
  blendGradientsPatches :: "gradient \<Rightarrow> gradient \<Rightarrow> bool list list \<Rightarrow> nat \<Rightarrow> nat \<Rightarrow> gradient"
  computeDivergence :: "gradient \<Rightarrow> Array2Df"
  solve_pde_dct :: "Array2Df \<Rightarrow> Array2Df \<Rightarrow> Array2Df"
  computeIrradiance :: "Array2Df \<Rightarrow> Array2Df"
  minChannel :: "Array2Df \<Rightarrow> real"
  clampToZero :: "Array2Df \<Rightarrow> Array2Df \<Rightarrow> Array2Df \<Rightarrow> real \<Rightarrow> Array2Df \<times> Array2Df \<times> Array2Df"
  shadesOfGrayAWB :: "Array2Df \<Rightarrow> Array2Df \<Rightarrow> Array2Df \<Rightarrow> Array2Df \<times> Array2Df \<times> Array2Df"

definition createHdr :: "solver_ops \<Rightarrow> manager \<Rightarrow> Frame" where
  "createHdr ops s =
     (let bps = getBitDepth (m_data s ! 0)
      in computeFusion ops
           (map (\<lambda>item. (frame item, pow ops 2 (getEV item - m_evOffset s), bps)) (m_data s)))"

text \<open>
  The values that one colour channel's block of \<^verbatim>\<open>doAntiGhosting\<close> computes.
\<close>

record channelStage =
  logIrradiance :: Array2Df
  gradientGood :: gradient
  gradientGhosted :: gradient
  gradientBlended :: gradient
  divergence :: Array2Df

text \<open>
  The blocks between the comments \<^verbatim>\<open>//RED\<close>, \<^verbatim>\<open>//GREEN\<close> and \<^verbatim>\<open>//BLUE\<close>, statement by
  statement. In the green block \<^verbatim>\<open>computeGradient\<close> is called on
  \<^verbatim>\<open>logIrradianceGood_G\<close> before \<^verbatim>\<open>computeLogIrradiance\<close> has written to it.
\<close>

definition stageRed ::
  "solver_ops \<Rightarrow> nat \<Rightarrow> nat \<Rightarrow> (gradient \<Rightarrow> gradient \<Rightarrow> gradient) \<Rightarrow> Array2Df \<Rightarrow> Array2Df
     \<Rightarrow> channelStage" where
  "stageRed ops width height blendGradients Rc Good_Rc =
     (let logIrradiance_R = computeLogIrradiance ops Rc;
          logIrradianceGood_R = computeLogIrradiance ops Good_Rc;
          gradientGood_R = computeGradient ops logIrradianceGood_R;
          gradient_R = computeGradient ops logIrradiance_R;
          gradientBlended_R = blendGradients gradient_R gradientGood_R;
          divergence_R = computeDivergence ops gradientBlended_R
      in \<lparr>logIrradiance = logIrradiance_R, gradientGood = gradientGood_R,
          gradientGhosted = gradient_R, gradientBlended = gradientBlended_R,
          divergence = divergence_R\<rparr>)"

definition stageGreen ::
  "solver_ops \<Rightarrow> nat \<Rightarrow> nat \<Rightarrow> (gradient \<Rightarrow> gradient \<Rightarrow> gradient) \<Rightarrow> Array2Df \<Rightarrow> Array2Df
     \<Rightarrow> channelStage" where
  "stageGreen ops width height blendGradients Gc Good_Gc =
     (let logIrradiance_G = computeLogIrradiance ops Gc;
          logIrradianceGood_G = newArray2Df ops width height;
          gradientGood_G = computeGradient ops logIrradianceGood_G;
          logIrradianceGood_G = computeLogIrradiance ops Good_Gc;
          gradient_G = computeGradient ops logIrradiance_G;
          gradientBlended_G = blendGradients gradient_G gradientGood_G;
          divergence_G = computeDivergence ops gradientBlended_G
      in \<lparr>logIrradiance = logIrradiance_G, gradientGood = gradientGood_G,
          gradientGhosted = gradient_G, gradientBlended = gradientBlended_G,
          divergence = divergence_G\<rparr>)"

definition stageBlue ::
  "solver_ops \<Rightarrow> nat \<Rightarrow> nat \<Rightarrow> (gradient \<Rightarrow> gradient \<Rightarrow> gradient) \<Rightarrow> Array2Df \<Rightarrow> Array2Df
     \<Rightarrow> channelStage" where
  "stageBlue ops width height blendGradients Bc Good_Bc =
     (let logIrradiance_B = computeLogIrradiance ops Bc;
          logIrradianceGood_B = computeLogIrradiance ops Good_Bc;
          gradientGood_B = computeGradient ops logIrradianceGood_B;
          gradient_B = computeGradient ops logIrradiance_B;
          gradientBlended_B = blendGradients gradient_B gradientGood_B;
          divergence_B = computeDivergence ops gradientBlended_B
      in \<lparr>logIrradiance = logIrradiance_B, gradientGood = gradientGood_B,
          gradientGhosted = gradient_B, gradientBlended = gradientBlended_B,
          divergence = divergence_B\<rparr>)"

text \<open>
  \<^verbatim>\<open>Frame::getXYZChannels\<close> (Libpfs): the three channels, or three null pointers when one
  of them is missing.
\<close>

definition getXYZChannels :: "Frame \<Rightarrow> (Array2Df \<times> Array2Df \<times> Array2Df) option" where
  "getXYZChannels f =
     (case chanX f of
        None \<Rightarrow> None
      | Some X \<Rightarrow>
          (case chanY f of
             None \<Rightarrow> None
           | Some Y \<Rightarrow>
               (case chanZ f of
                  None \<Rightarrow> None
                | Some Z \<Rightarrow> Some (X, Y, Z))))"

text \<open>
  The copies of the channels (\<^verbatim>\<open>Array2Df Rc(*Xc); Array2Df Gc(*Xc); Array2Df Bc(*Xc);\<close>) and
  the three blocks. A channel pointer that is null is dereferenced by the copy: \<open>None\<close>.
\<close>

definition channelStages ::
  "solver_ops \<Rightarrow> nat \<Rightarrow> nat \<Rightarrow> (gradient \<Rightarrow> gradient \<Rightarrow> gradient) \<Rightarrow> Frame \<Rightarrow> Frame
     \<Rightarrow> (channelStage \<times> channelStage \<times> channelStage) option" where
  "channelStages ops width height blendGradients ghosted good =
     (case (getXYZChannels good, getXYZChannels ghosted) of
        (Some (Good_Xc, Good_Yc, Good_Zc), Some (Xc, Yc, Zc)) \<Rightarrow>
          (let Good_Rc = Good_Xc; Good_Gc = Good_Yc; Good_Bc = Good_Zc;
               Rc = Xc; Gc = Xc; Bc = Xc
           in Some (stageRed ops width height blendGradients Rc Good_Rc,
                    stageGreen ops width height blendGradients Gc Good_Gc,
                    stageBlue ops width height blendGradients Bc Good_Bc))
      | _ \<Rightarrow> None)"

text \<open>
  \<^verbatim>\<open>ph->setValue(v); if (ph->canceled()) return NULL;\<close> followed by the rest of the
  function. The answers of \<^verbatim>\<open>ph->canceled()\<close> are a function of the number of the query,
  0 to 6 in program order.
\<close>

definition checkpoint ::
  "nat \<Rightarrow> bool \<Rightarrow> manager \<Rightarrow> (manager \<Rightarrow> manager \<times> Frame option) \<Rightarrow> manager \<times> Frame option" where
  "checkpoint v isCanceled s continue =
     (let s' = emit (progressValueChanged v) s
      in if isCanceled then (s', None) else continue s')"

definition solveAndReconstruct ::
  "solver_ops \<Rightarrow> nat \<Rightarrow> nat \<Rightarrow> (nat \<Rightarrow> bool) \<Rightarrow> channelStage \<times> channelStage \<times> channelStage
     \<Rightarrow> manager \<Rightarrow> manager \<times> Frame option" where
  "solveAndReconstruct ops width height canceled stages s =
     (case stages of (R, G, B) \<Rightarrow>
        let logIrradiance_R = solve_pde_dct ops (divergence R) (logIrradiance R) in
        checkpoint 60 (canceled 1) s (\<lambda>s.
        let logIrradiance_G = solve_pde_dct ops (divergence G) (logIrradiance G) in
        checkpoint 76 (canceled 2) s (\<lambda>s.
        let logIrradiance_B = solve_pde_dct ops (divergence B) (logIrradiance B) in
        checkpoint 93 (canceled 3) s (\<lambda>s.
        let Urc = computeIrradiance ops logIrradiance_R in
        checkpoint 94 (canceled 4) s (\<lambda>s.
        let Ugc = computeIrradiance ops logIrradiance_G in
        checkpoint 95 (canceled 5) s (\<lambda>s.
        let Ubc = computeIrradiance ops logIrradiance_B in
        checkpoint 96 (canceled 6) s (\<lambda>s.
        let mr = minChannel ops Urc;
            mg = minChannel ops Ugc;
            mb = minChannel ops Ubc;
            t = min mr mg;
            m = min t mb;
            (Urc, Ugc, Ubc) = clampToZero ops Urc Ugc Ubc m;
            (Urc, Ugc, Ubc) = shadesOfGrayAWB ops Urc Ugc Ubc
        in (emit progressFinished (emit (progressValueChanged 100) s),
            Some \<lparr>getWidth = width, getHeight = height,
                  chanX = Some Urc, chanY = Some Ugc, chanZ = Some Ubc\<rparr>))))))))"

definition startProgress :: "manager \<Rightarrow> manager" where
  "startProgress s =
     emit progressStarted (emit (progressValueChanged 0) (emit (progressRangeChanged 0 100) s))"

text \<open>
  \<^verbatim>\<open>doAntiGhosting\<close> returns the new manager state and the frame, \<open>None\<close> for the
  \<^verbatim>\<open>NULL\<close> frame. The outer \<open>None\<close> is undefined behaviour of the C++: an empty store, a
  grid size of zero, \<^verbatim>\<open>h0\<close> out of range, a null channel, or manual anti-ghosting without
  a mask.
\<close>

definition doAntiGhosting ::
  "solver_ops \<Rightarrow> nat \<Rightarrow> bool list list \<Rightarrow> int \<Rightarrow> bool \<Rightarrow> (nat \<Rightarrow> bool) \<Rightarrow> manager
     \<Rightarrow> (manager \<times> Frame option) option" where
  "doAntiGhosting ops gridSize patches h0 manualAg canceled s =
     (if m_data s = [] \<or> gridSize = 0 then None
      else
        let width = getWidth (frame (m_data s ! 0));
            height = getHeight (frame (m_data s ! 0));
            gridX = width div gridSize;
            gridY = height div gridSize;
            s = startProgress s
        in if h0 < 0 \<or> nat h0 \<ge> length (m_data s) then None
           else
             let good = frame (m_data s ! nat h0);
                 ghosted = createHdr ops s;
                 s = emit (progressValueChanged 20) s
             in if canceled 0 then Some (s, None)
                else if manualAg \<and> m_agMask s = None then None
                else
                  let blendGradients =
                        (if manualAg
                         then (\<lambda>g gGood. blendGradientsMask ops g gGood (the (m_agMask s)))
                         else (\<lambda>g gGood. blendGradientsPatches ops g gGood patches gridX gridY))
                  in (case channelStages ops width height blendGradients ghosted good of
                        None \<Rightarrow> None
                      | Some stages \<Rightarrow>
                          Some (solveAndReconstruct ops width height canceled stages (reset s))))"

section \<open>Notions used in the statements\<close>

text \<open>
  The median convention in the words of the specification: sort ascending and take the
  element at index \<open>\<lceil>n/2\<rceil> - 1\<close>.
\<close>

definition knownEVs :: "manager \<Rightarrow> real list" where
  "knownEVs s = map getEV (filter hasEV (m_data s))"

definition specMedian :: "real list \<Rightarrow> real" where
  "specMedian evs = sort evs ! (nat \<lceil>real (length evs) / 2\<rceil> - 1)"

text \<open>
  The EV offset is current when it is what the median convention gives for the items now
  in the store. \<open>offsetView\<close> shows the known EVs of a store next to its offset.
\<close>

definition offsetCurrent :: "manager \<Rightarrow> bool" where
  "offsetCurrent s =
     (m_evOffset s = (if knownEVs s = [] then 0 else specMedian (knownEVs s)))"

definition offsetView :: "manager \<Rightarrow> real list \<times> real" where
  "offsetView s = (knownEVs s, m_evOffset s)"

text \<open>
  The number of stored items for a path, the store after the merge loop of
  \<^verbatim>\<open>loadFilesDone\<close>, and equal geometry of two items.
\<close>

definition storedCount :: "string \<Rightarrow> manager \<Rightarrow> nat" where
  "storedCount path s = length (filter (\<lambda>item. checkFileName item path) (m_data s))"

definition storedAfterMerge :: "manager \<Rightarrow> HdrCreationItem list" where
  "storedAfterMerge s = m_data s @ filter isValid (m_tmpdata s)"

definition sameSize :: "HdrCreationItem \<Rightarrow> HdrCreationItem \<Rightarrow> bool" where
  "sameSize a b = (getWidth (frame a) = getWidth (frame b) \<and> getHeight (frame a) = getHeight (frame b))"

text \<open>
  A loader keeps the file name of the pending items it populates.
\<close>

definition keepsFileName ::
  "(HdrCreationItem \<Rightarrow> HdrCreationItem option) \<Rightarrow> HdrCreationItem list \<Rightarrow> bool" where
  "keepsFileName LoadFile pending =
     list_all (\<lambda>item. case LoadFile item of None \<Rightarrow> True
                                          | Some item' \<Rightarrow> filename item' = filename item) pending"

text \<open>
  One whole batch: the request, the future, the slot.
\<close>

definition loadBatch ::
  "(HdrCreationItem \<Rightarrow> HdrCreationItem option) \<Rightarrow> bool \<Rightarrow> string option \<Rightarrow> string list
     \<Rightarrow> manager \<Rightarrow> manager option" where
  "loadBatch LoadFile cancelRequested readFromFile filenames s =
     loadFilesDone readFromFile (futureFinished LoadFile cancelRequested (loadFiles filenames s))"

text \<open>
  The test that \<^verbatim>\<open>computePatches\<close> applies to cell \<open>(i, j)\<close> for image \<open>h\<close>, with the
  arguments computed as in the loop body.
\<close>

definition cellGhosted ::
  "ghost_ops \<Rightarrow> real \<Rightarrow> (int \<times> int) list \<Rightarrow> HdrCreationItem list \<Rightarrow> nat \<Rightarrow> nat \<Rightarrow> nat \<Rightarrow> nat
     \<Rightarrow> nat \<Rightarrow> nat \<Rightarrow> bool" where
  "cellGhosted ops threshold HV_offset items good gridX gridY h i j =
     (let deltaEV = log2 ops (getAverageLuminance (items ! good))
                      - log2 ops (getAverageLuminance (items ! h));
          dx = fst (HV_offset ! good) - fst (HV_offset ! h);
          dy = snd (HV_offset ! good) - snd (HV_offset ! h);
          (sR, sG, sB) = sdv ops (items ! good) (items ! h) deltaEV dx dy
      in comparePatches ops (items ! good) (items ! h) i j gridX gridY
                                     threshold sR sG sB deltaEV dx dy)"

definition anyCandidateGhosted ::
  "ghost_ops \<Rightarrow> real \<Rightarrow> (int \<times> int) list \<Rightarrow> HdrCreationItem list \<Rightarrow> int \<Rightarrow> nat \<Rightarrow> nat
     \<Rightarrow> nat \<Rightarrow> nat \<Rightarrow> bool" where
  "anyCandidateGhosted ops t HV items good gx gy i j =
     list_ex (\<lambda>h. int h \<noteq> good \<and> cellGhosted ops t HV items (nat good) gx gy h i j)
       [0..<length items]"

definition gridCells :: "nat \<Rightarrow> patches \<Rightarrow> (nat \<times> nat) set" where
  "gridCells G m = {(i, j). i < G \<and> j < G \<and> m i j}"

text \<open>
  The conditions under which \<^verbatim>\<open>computePatches\<close> is defined, and the mask it then leaves in
  \<^verbatim>\<open>m_patches\<close>.
\<close>

definition patchesPre :: "ghost_ops \<Rightarrow> (int \<times> int) list \<Rightarrow> manager \<Rightarrow> bool" where
  "patchesPre ops HV s =
     (0 < agGridSize ops \<and> 2 \<le> length (m_data s) \<and> length (m_data s) \<le> length HV
      \<and> 0 \<le> findIndex ops (hueSquaredMean ops (m_data s)) (int (length (m_data s)))
      \<and> findIndex ops (hueSquaredMean ops (m_data s)) (int (length (m_data s)))
            < int (length (m_data s)))"

definition patchesResult :: "ghost_ops \<Rightarrow> real \<Rightarrow> (int \<times> int) list \<Rightarrow> manager \<Rightarrow> patches" where
  "patchesResult ops t HV s =
     (\<lambda>a b. if a < agGridSize ops \<and> b < agGridSize ops
            then anyCandidateGhosted ops t HV (m_data s)
                   (findIndex ops (hueSquaredMean ops (m_data s)) (int (length (m_data s))))
                   (getWidth (frame (m_data s ! 0)) div agGridSize ops)
                   (getHeight (frame (m_data s ! 0)) div agGridSize ops) a b
            else m_patches s a b)"

text \<open>
  Modelled from the spec: \<^verbatim>\<open>comparePatches\<close> is declared in \<^verbatim>\<open>AutoAntighosting.h\<close> and
  defined outside the sources. The spec says: "if the deviation exceeds threshold \<times>
  (baseline std-dev) the cell is flagged ghosted", the deviation being that of the
  exposure- and offset-compensated patches and the baseline coming from the per-channel
  standard deviations. How the deviation is measured and how the three standard deviations
  combine into the baseline are left open: both are parameters.
\<close>

definition comparePatchesSpec ::
  "(HdrCreationItem \<Rightarrow> HdrCreationItem \<Rightarrow> nat \<Rightarrow> nat \<Rightarrow> nat \<Rightarrow> nat \<Rightarrow> real \<Rightarrow> int \<Rightarrow> int \<Rightarrow> real)
   \<Rightarrow> (real \<Rightarrow> real \<Rightarrow> real \<Rightarrow> real)
   \<Rightarrow> HdrCreationItem \<Rightarrow> HdrCreationItem \<Rightarrow> nat \<Rightarrow> nat \<Rightarrow> nat \<Rightarrow> nat \<Rightarrow> real
     \<Rightarrow> real \<Rightarrow> real \<Rightarrow> real \<Rightarrow> real \<Rightarrow> int \<Rightarrow> int \<Rightarrow> bool" where
  "comparePatchesSpec deviation baseline item1 item2 i j gridX gridY threshold sR sG sB deltaEV dx dy =
     (deviation item1 item2 i j gridX gridY deltaEV dx dy > threshold * baseline sR sG sB)"

definition pairBaseline ::
  "ghost_ops \<Rightarrow> (real \<Rightarrow> real \<Rightarrow> real \<Rightarrow> real) \<Rightarrow> (int \<times> int) list \<Rightarrow> HdrCreationItem list
     \<Rightarrow> nat \<Rightarrow> nat \<Rightarrow> real" where
  "pairBaseline ops baseline HV_offset items good h =
     (let deltaEV = log2 ops (getAverageLuminance (items ! good))
                      - log2 ops (getAverageLuminance (items ! h));
          dx = fst (HV_offset ! good) - fst (HV_offset ! h);
          dy = snd (HV_offset ! good) - snd (HV_offset ! h);
          (sR, sG, sB) = sdv ops (items ! good) (items ! h) deltaEV dx dy
      in baseline sR sG sB)"

definition baselineNonneg ::
  "ghost_ops \<Rightarrow> (real \<Rightarrow> real \<Rightarrow> real \<Rightarrow> real) \<Rightarrow> (int \<times> int) list \<Rightarrow> manager \<Rightarrow> bool" where
  "baselineNonneg ops baseline HV_offset s =
     list_all (\<lambda>h. 0 \<le> pairBaseline ops baseline HV_offset (m_data s)
                     (nat (findIndex ops (hueSquaredMean ops (m_data s)) (int (length (m_data s))))) h)
       [0..<length (m_data s)]"

text \<open>
  The processing of one channel in the words of the specification: log-irradiance of the
  channel of the ghosted frame and of the reference frame, the gradients of both, the
  blend, the divergence.
\<close>

definition specStage ::
  "solver_ops \<Rightarrow> (gradient \<Rightarrow> gradient \<Rightarrow> gradient) \<Rightarrow> Array2Df \<Rightarrow> Array2Df \<Rightarrow> channelStage" where
  "specStage ops blendGradients ghostedChannel referenceChannel =
     (let logGhosted = computeLogIrradiance ops ghostedChannel;
          logReference = computeLogIrradiance ops referenceChannel;
          gradGhosted = computeGradient ops logGhosted;
          gradReference = computeGradient ops logReference;
          blended = blendGradients gradGhosted gradReference
      in \<lparr>logIrradiance = logGhosted, gradientGood = gradReference,
          gradientGhosted = gradGhosted, gradientBlended = blended,
          divergence = computeDivergence ops blended\<rparr>)"

text \<open>
  The conditions under which \<^verbatim>\<open>doAntiGhosting\<close> is defined.
\<close>

definition agPre :: "solver_ops \<Rightarrow> nat \<Rightarrow> int \<Rightarrow> bool \<Rightarrow> manager \<Rightarrow> bool" where
  "agPre ops gridSize h0 manualAg s =
     (m_data s \<noteq> [] \<and> gridSize \<noteq> 0 \<and> 0 \<le> h0 \<and> nat h0 < length (m_data s)
      \<and> getXYZChannels (frame (m_data s ! nat h0)) \<noteq> None
      \<and> getXYZChannels (createHdr ops s) \<noteq> None
      \<and> (manualAg \<longrightarrow> m_agMask s \<noteq> None))"

section \<open>Concrete inputs\<close>

text \<open>Concrete items and managers on which the results below are evaluated.\<close>

definition mkFrame :: "nat \<Rightarrow> nat \<Rightarrow> Array2Df \<Rightarrow> Array2Df \<Rightarrow> Array2Df \<Rightarrow> Frame" where
  "mkFrame w h x y z =
     \<lparr>getWidth = w, getHeight = h, chanX = Some x, chanY = Some y, chanZ = Some z\<rparr>"

definition mkItem :: "string \<Rightarrow> Frame \<Rightarrow> real option \<Rightarrow> bool \<Rightarrow> HdrCreationItem" where
  "mkItem name f ev valid =
     \<lparr>filename = name, frame = f, hasEV = (ev \<noteq> None),
      getEV = (case ev of None \<Rightarrow> 0 | Some v \<Rightarrow> v),
      getAverageLuminance = 1, getBitDepth = 8, isValid = valid\<rparr>"

definition mkManager :: "HdrCreationItem list \<Rightarrow> HdrCreationItem list \<Rightarrow> manager" where
  "mkManager committed pending =
     \<lparr>m_data = committed, m_tmpdata = pending, m_evOffset = 0,
      watcherCanceled = False, watcherRunning = False, loadFilesDoneConnected = 0,
      m_isLoadResponseCurve = False, m_agGoodImageIndex = 0,
      m_patches = (\<lambda>i j. False), m_agMask = None,
      emitted = []\<rparr>"

definition px :: Frame where
  "px = mkFrame 1 1 [1] [2] [3]"

definition sq :: "Array2Df \<Rightarrow> Frame" where
  "sq x = mkFrame 2 2 x x x"

definition exStore3 :: manager where
  "exStore3 = mkManager [mkItem ''a'' (sq [1, 1, 1, 1]) (Some 0) True,
                         mkItem ''b'' (sq [1, 5, 1, 1]) (Some 1) True,
                         mkItem ''c'' (sq [1, 1, 1, 2]) (Some 2) True] []"

definition exDirty :: manager where
  "exDirty = exStore3\<lparr>m_agGoodImageIndex := 2, m_patches := (\<lambda>i j. True)\<rparr>"

definition exMismatch :: manager where
  "exMismatch = mkManager [mkItem ''a.tif'' px (Some 0) True]
                          [mkItem ''b.tif'' (sq [1, 1, 1, 1]) (Some 1) True]"

definition exCommitted :: manager where
  "exCommitted = mkManager [mkItem ''a.tif'' px (Some 0) True] []"

definition exHV :: "(int \<times> int) list" where
  "exHV = [(0, 0), (0, 0), (0, 0)]"

definition loadOk :: "HdrCreationItem \<Rightarrow> HdrCreationItem option" where
  "loadOk item = Some (item\<lparr>frame := px, isValid := True\<rparr>)"

text \<open>
  A loader that gives \<^verbatim>\<open>a.tif\<close> a \<open>1 \<times> 1\<close> frame with EV 1 and any other file a
  \<open>2 \<times> 2\<close> frame with EV 2, and a store with one pending item of the committed size.
\<close>

definition exLoader :: "HdrCreationItem \<Rightarrow> HdrCreationItem option" where
  "exLoader item =
     (if filename item = ''a.tif''
      then Some (item\<lparr>frame := px, hasEV := True, getEV := 1, isValid := True\<rparr>)
      else Some (item\<lparr>frame := sq [1, 1, 1, 1], hasEV := True, getEV := 2, isValid := True\<rparr>))"

definition exPendingOk :: manager where
  "exPendingOk = mkManager [mkItem ''a.tif'' px (Some 1) True] [mkItem ''c.tif'' px (Some 3) True]"

text \<open>
  An instance of the parameters of ghost detection: cells are single pixels of a
  \<open>2 \<times> 2\<close> frame, the deviation is the absolute difference of the first channel, and
  \<open>exLog2\<close> is the binary logarithm on the luminances 1, 2 and 4.
\<close>

definition exDeviation ::
  "HdrCreationItem \<Rightarrow> HdrCreationItem \<Rightarrow> nat \<Rightarrow> nat \<Rightarrow> nat \<Rightarrow> nat \<Rightarrow> real \<Rightarrow> int \<Rightarrow> int \<Rightarrow> real" where
  "exDeviation item1 item2 i j gridX gridY deltaEV dx dy =
     \<bar>the (chanX (frame item1)) ! (j * 2 + i) - the (chanX (frame item2)) ! (j * 2 + i)\<bar>"

definition exBaseline :: "real \<Rightarrow> real \<Rightarrow> real \<Rightarrow> real" where
  "exBaseline sR sG sB = (sR + sG + sB) / 3"

definition exLog2 :: "real \<Rightarrow> real" where
  "exLog2 x = (if x = 1 then 0 else if x = 2 then 1 else if x = 4 then 2 else 0)"

definition exGhost :: ghost_ops where
  "exGhost = \<lparr>agGridSize = 2, hueSquaredMean = map getEV, findIndex = (\<lambda>HE size. 0),
     log2 = exLog2, sdv = (\<lambda>item1 item2 deltaEV dx dy. (1, 1, 1)),
     comparePatches = comparePatchesSpec exDeviation exBaseline\<rparr>"

text \<open>
  An instance of the parameters of the solver.
\<close>

definition exFusion :: "(Frame \<times> real \<times> nat) list \<Rightarrow> Frame" where
  "exFusion frames =
     (case frames of
        [] \<Rightarrow> \<lparr>getWidth = 0, getHeight = 0, chanX = None, chanY = None, chanZ = None\<rparr>
      | (f, scale, bps) # rest \<Rightarrow> f)"

definition exSolver :: solver_ops where
  "exSolver = \<lparr>computeFusion = exFusion, pow = (\<lambda>a b. 1),
     newArray2Df = (\<lambda>cols rows. replicate (cols * rows) 0),
     computeLogIrradiance = map (\<lambda>p. max p 0),
     computeGradient = (\<lambda>a. (a, a)),
     blendGradientsMask = (\<lambda>g gGood mask. gGood),
     blendGradientsPatches = (\<lambda>g gGood patches gridX gridY. g),
     computeDivergence = (\<lambda>(gx, gy). gx),
     solve_pde_dct = (\<lambda>F U. F),
     computeIrradiance = map (\<lambda>p. max p 0),
     minChannel = (\<lambda>a. 0),
     clampToZero = (\<lambda>r g b m. (r, g, b)),
     shadesOfGrayAWB = (\<lambda>r g b. (r, g, b))\<rparr>"

section \<open>Results on the EV offset\<close>

lemma fold_collect:
  "fold (\<lambda>it evs. if hasEV it then evs @ [getEV it] else evs) items acc
     = acc @ map getEV (filter hasEV items)"
  by (induction items arbitrary: acc) simp_all

lemma collectEVs_eq: "collectEVs items = map getEV (filter hasEV items)"
  by (simp add: collectEVs_def fold_collect)

lemma ceil_half_index: "nat \<lceil>real n / 2\<rceil> = (n + 1) div 2"
proof (cases "even n")
  case True
  then obtain k where "n = 2 * k" by (auto elim: evenE)
  then show ?thesis by simp
next
  case False
  then obtain k where k: "n = 2 * k + 1" by (auto elim: oddE)
  have "\<lceil>real n / 2\<rceil> = int k + 1"
    unfolding k by (rule ceiling_unique) simp_all
  then show ?thesis using k by simp
qed

lemma refreshEVOffset_frame:
  "m_data (refreshEVOffset s) = m_data s \<and> m_tmpdata (refreshEVOffset s) = m_tmpdata s
   \<and> emitted (refreshEVOffset s) = emitted s"
  by (simp add: refreshEVOffset_def Let_def)

text \<open>
  What \<^verbatim>\<open>refreshEVOffset\<close> assigns, for every content of the store.
\<close>

lemma refreshEVOffset_assigns:
  "(knownEVs s = [] \<longrightarrow> m_evOffset (refreshEVOffset s) = 0)
   \<and> (\<forall>v. knownEVs s = [v] \<longrightarrow> m_evOffset (refreshEVOffset s) = v)
   \<and> (knownEVs s \<noteq> [] \<longrightarrow> m_evOffset (refreshEVOffset s) = specMedian (knownEVs s))"
proof (intro conjI allI impI)
  assume "knownEVs s = []"
  then show "m_evOffset (refreshEVOffset s) = 0"
    by (simp add: refreshEVOffset_def knownEVs_def collectEVs_eq Let_def)
next
  fix v assume "knownEVs s = [v]"
  then show "m_evOffset (refreshEVOffset s) = v"
    by (auto simp: refreshEVOffset_def knownEVs_def collectEVs_eq Let_def)
next
  assume ne: "knownEVs s \<noteq> []"
  then have d: "m_data s \<noteq> []"
    by (auto simp: knownEVs_def)
  show "m_evOffset (refreshEVOffset s) = specMedian (knownEVs s)"
  proof (cases "length (knownEVs s) = 1")
    case True
    then obtain v where v: "knownEVs s = [v]"
      by (cases "knownEVs s") auto
    then show ?thesis using d
      by (simp add: refreshEVOffset_def knownEVs_def collectEVs_eq Let_def specMedian_def)
  next
    case False
    then show ?thesis using ne d
      by (simp add: refreshEVOffset_def knownEVs_def collectEVs_eq Let_def specMedian_def
          ceil_half_index)
  qed
qed

lemma knownEVs_refresh [simp]: "knownEVs (refreshEVOffset s) = knownEVs s"
  by (simp add: knownEVs_def refreshEVOffset_frame)

lemma offsetCurrent_refresh: "offsetCurrent (refreshEVOffset s)"
  using refreshEVOffset_assigns [of s] by (simp add: offsetCurrent_def)

section \<open>Results on loading\<close>

lemma emit_fields [simp]:
  "m_data (emit sg s) = m_data s" "m_tmpdata (emit sg s) = m_tmpdata s"
  "m_evOffset (emit sg s) = m_evOffset s" "m_agMask (emit sg s) = m_agMask s"
  "emitted (emit sg s) = emitted s @ [sg]"
  by (simp_all add: emit_def)

lemma scheduleFile_data: "m_data (scheduleFile f s) = m_data s"
  by (simp add: scheduleFile_def)

lemma fold_scheduleFile:
  "fold scheduleFile fs s =
     s\<lparr>m_tmpdata := m_tmpdata s @ map newHdrCreationItem
          (filter (\<lambda>f. find (\<lambda>item. checkFileName item f) (m_data s) = None) fs)\<rparr>"
proof (induction fs arbitrary: s)
  case Nil
  show ?case by simp
next
  case (Cons f fs)
  show ?case
    by (simp add: Cons.IH scheduleFile_data) (simp add: scheduleFile_def)
qed

lemma loadFiles_eq:
  "loadFiles fs s =
     s\<lparr>m_tmpdata := m_tmpdata s @ map newHdrCreationItem
          (filter (\<lambda>f. find (\<lambda>item. checkFileName item f) (m_data s) = None) fs),
       loadFilesDoneConnected := Suc (loadFilesDoneConnected s),
       watcherRunning := True, watcherCanceled := False\<rparr>"
  by (simp add: loadFiles_def fold_scheduleFile)

lemma tmp_loadFiles:
  assumes "m_tmpdata s = []"
  shows "m_tmpdata (loadFiles fs s)
     = map newHdrCreationItem
         (filter (\<lambda>f. find (\<lambda>item. checkFileName item f) (m_data s) = None) fs)"
  by (simp add: loadFiles_eq assms)

lemma filename_new: "filename (newHdrCreationItem f) = f"
  by (simp add: newHdrCreationItem_def)

lemma fold_mergeItem:
  "fold mergeItem items s = s\<lparr>m_data := m_data s @ filter isValid items\<rparr>"
proof (induction items arbitrary: s)
  case Nil
  show ?case by simp
next
  case (Cons it items)
  show ?case by (simp add: Cons.IH) (simp add: mergeItem_def)
qed

lemma sameSizeLoop_iff:
  "sameSizeLoop w h its \<longleftrightarrow> (\<forall>it\<in>set its. getWidth (frame it) = w \<and> getHeight (frame it) = h)"
  by (induction its) auto

lemma merged_state:
  assumes "\<not> watcherCanceled s" "loadResponseCurve r s = Some s1"
  shows "loadFilesDone r s = checkSizes (refreshEVOffset
           (s1\<lparr>loadFilesDoneConnected := 0, m_data := storedAfterMerge s, m_tmpdata := []\<rparr>))"
proof -
  have "m_data s1 = m_data s \<and> m_tmpdata s1 = m_tmpdata s"
    using assms(2) by (auto simp: loadResponseCurve_def emit_def split: if_splits list.splits option.splits)
  then show ?thesis using assms
    by (simp add: loadFilesDone_def fold_mergeItem storedAfterMerge_def)
qed

lemma loadResponseCurve_Some:
  assumes "m_isLoadResponseCurve s \<longrightarrow> m_tmpdata s \<noteq> []"
  shows "\<exists>s1. loadResponseCurve r s = Some s1 \<and> m_data s1 = m_data s \<and> m_tmpdata s1 = m_tmpdata s
     \<and> m_evOffset s1 = m_evOffset s"
  using assms by (auto simp: loadResponseCurve_def emit_def split: list.splits option.splits)

lemma framesHaveSameSize_mismatch:
  assumes "a \<in> set (m_data s)" "b \<in> set (m_data s)" "\<not> sameSize a b"
  shows "framesHaveSameSize s = Some False"
proof (cases "m_data s")
  case Nil
  with assms show ?thesis by simp
next
  case (Cons first rest)
  have "\<not> sameSizeLoop (getWidth (frame first)) (getHeight (frame first)) rest"
  proof
    assume "sameSizeLoop (getWidth (frame first)) (getHeight (frame first)) rest"
    then have "\<forall>it\<in>set (m_data s). sameSize it first"
      by (simp add: Cons sameSizeLoop_iff sameSize_def)
    with assms show False by (auto simp: sameSize_def)
  qed
  then show ?thesis by (simp add: framesHaveSameSize_def Cons)
qed

lemma find_None_count:
  "find (\<lambda>item. checkFileName item f) xs = None \<longleftrightarrow> filter (\<lambda>item. checkFileName item f) xs = []"
  by (induction xs) auto

lemma pending_not_committed:
  assumes "storedCount p s \<noteq> 0" and "m_tmpdata s = []"
    and "keepsFileName LoadFile (m_tmpdata (loadFiles fs s))"
    and "item \<in> set (m_tmpdata (futureFinished LoadFile c (loadFiles fs s)))"
  shows "\<not> checkFileName item p"
proof -
  have np: "find (\<lambda>it. checkFileName it p) (m_data s) \<noteq> None"
    using assms(1) by (simp add: find_None_count storedCount_def)
  have "m_tmpdata (futureFinished LoadFile c (loadFiles fs s))
     = map (\<lambda>item. case LoadFile item of None \<Rightarrow> item | Some item' \<Rightarrow> item')
         (m_tmpdata (loadFiles fs s))"
    by (simp add: futureFinished_def)
  then obtain it0 where it0: "it0 \<in> set (m_tmpdata (loadFiles fs s))"
    and item: "item = (case LoadFile it0 of None \<Rightarrow> it0 | Some item' \<Rightarrow> item')"
    using assms(4) by auto
  have "case LoadFile it0 of None \<Rightarrow> True | Some item' \<Rightarrow> filename item' = filename it0"
    using assms(3) it0 unfolding keepsFileName_def list_all_iff by blast
  then have fn: "filename item = filename it0"
    unfolding item by (cases "LoadFile it0") simp_all
  obtain f where f: "it0 = newHdrCreationItem f"
    and none: "find (\<lambda>it. checkFileName it f) (m_data s) = None"
    using it0 unfolding tmp_loadFiles [OF assms(2)] by auto
  have "f \<noteq> p" using np none by blast
  then show ?thesis
    unfolding checkFileName_def fn f filename_new .
qed

lemma futureFinished_canceled:
  "watcherCanceled (futureFinished LoadFile cancelRequested s)
     \<longleftrightarrow> cancelRequested \<or> (\<exists>item\<in>set (m_tmpdata s). LoadFile item = None)"
  "m_data (futureFinished LoadFile cancelRequested s) = m_data s"
  by (simp_all add: futureFinished_def list_ex_iff)

text \<open>
  Claim C3, as the code has it. A load request skips every path that has an item in the
  committed store: when a path has exactly one stored item and no batch is pending, a
  whole batch for any list of requested paths (the path itself included, any number of
  times) leaves exactly one stored item for that path, unless the geometry check empties
  the store.
\<close>

theorem loadBatch_skips_committed:
  assumes "storedCount p s = 1" and "m_tmpdata s = []"
    and "keepsFileName LoadFile (m_tmpdata (loadFiles fs s))"
    and "m_isLoadResponseCurve s \<longrightarrow> m_tmpdata (loadFiles fs s) \<noteq> []"
  shows "\<exists>s'. loadBatch LoadFile c r fs s = Some s'
           \<and> (storedCount p s' = 1 \<or> m_data s' = [])"
proof -
  define f where "f = futureFinished LoadFile c (loadFiles fs s)"
  have pend: "\<forall>item\<in>set (m_tmpdata f). \<not> checkFileName item p"
    unfolding f_def using assms(1-3) pending_not_committed [of p s LoadFile fs] by simp
  have df: "m_data f = m_data s"
    by (simp add: f_def futureFinished_def loadFiles_def fold_scheduleFile)
  have lb: "loadBatch LoadFile c r fs s = loadFilesDone r f"
    by (simp add: loadBatch_def f_def)
  show ?thesis
  proof (cases "watcherCanceled f")
    case True
    have "loadFilesDone r f = Some ((emit (errorWhileLoading msgErrorLoading) f)
                \<lparr>loadFilesDoneConnected := 0, m_tmpdata := []\<rparr>)"
      using True by (simp add: loadFilesDone_def)
    moreover have "storedCount p ((emit (errorWhileLoading msgErrorLoading) f)
                \<lparr>loadFilesDoneConnected := 0, m_tmpdata := []\<rparr>) = 1"
      using assms(1) df by (simp add: storedCount_def)
    ultimately show ?thesis
      unfolding lb by blast
  next
    case False
    have "m_isLoadResponseCurve f = m_isLoadResponseCurve s"
      "(m_tmpdata f = []) = (m_tmpdata (loadFiles fs s) = [])"
      by (simp_all add: f_def futureFinished_def loadFiles_def fold_scheduleFile)
    then have "m_isLoadResponseCurve f \<longrightarrow> m_tmpdata f \<noteq> []"
      using assms(4) by simp
    then obtain s1 where s1: "loadResponseCurve r f = Some s1"
      using loadResponseCurve_Some [of f r] by blast
    define m where "m = refreshEVOffset
      (s1\<lparr>loadFilesDoneConnected := 0, m_data := storedAfterMerge f, m_tmpdata := []\<rparr>)"
    have run: "loadFilesDone r f = checkSizes m"
      unfolding m_def by (rule merged_state [OF False s1])
    have dm: "m_data m = m_data s @ filter isValid (m_tmpdata f)"
      by (simp add: m_def refreshEVOffset_frame storedAfterMerge_def df)
    have "filter (\<lambda>item. checkFileName item p) (filter isValid (m_tmpdata f)) = []"
      using pend by (simp add: filter_empty_conv)
    then have cnt: "storedCount p m = 1"
      using assms(1) unfolding storedCount_def dm filter_append by simp
    then have ne: "m_data m \<noteq> []"
      unfolding storedCount_def by auto
    then obtain same where same: "framesHaveSameSize m = Some same"
      unfolding framesHaveSameSize_def by (cases "m_data m") simp_all
    show ?thesis
    proof (cases same)
      case True
      then have "checkSizes m = Some (emit finishedLoadingFiles m)"
        unfolding checkSizes_def same by simp
      moreover have "storedCount p (emit finishedLoadingFiles m) = 1"
        using cnt by (simp add: storedCount_def)
      ultimately show ?thesis
        unfolding lb run by blast
    next
      case False
      then have "checkSizes m
          = Some (emit (errorWhileLoading msgDifferentSize) (m\<lparr>m_data := []\<rparr>))"
        unfolding checkSizes_def same by simp
      moreover have "m_data (emit (errorWhileLoading msgDifferentSize) (m\<lparr>m_data := []\<rparr>)) = []"
        by simp
      ultimately show ?thesis
        unfolding lb run by blast
    qed
  qed
qed

theorem loadBatch_skips_committed_witness:
  "storedCount ''a.tif'' exCommitted = 1 \<and> m_tmpdata exCommitted = []
   \<and> keepsFileName loadOk (m_tmpdata (loadFiles [''a.tif'', ''b.tif''] exCommitted))
   \<and> (\<exists>s'. loadBatch loadOk False None [''a.tif'', ''b.tif''] exCommitted = Some s'
           \<and> (storedCount ''a.tif'' s' = 1 \<or> m_data s' = []))
   \<and> map_option (map filename \<circ> m_data)
         (loadBatch loadOk False None [''a.tif'', ''b.tif''] exCommitted)
       = Some [''a.tif'', ''b.tif'']"
proof -
  have 1: "storedCount ''a.tif'' exCommitted = 1" "m_tmpdata exCommitted = []"
    by (simp_all add: storedCount_def exCommitted_def mkManager_def mkItem_def checkFileName_def)
  have l: "loadFiles [''a.tif'', ''b.tif''] exCommitted
     = exCommitted\<lparr>m_tmpdata := [newHdrCreationItem ''b.tif''], loadFilesDoneConnected := 1,
                      watcherRunning := True, watcherCanceled := False\<rparr>"
    by (simp add: loadFiles_def scheduleFile_def exCommitted_def mkManager_def mkItem_def
        checkFileName_def)
  have 2: "keepsFileName loadOk (m_tmpdata (loadFiles [''a.tif'', ''b.tif''] exCommitted))"
    unfolding l by (simp add: keepsFileName_def loadOk_def)
  have 3: "m_isLoadResponseCurve exCommitted
             \<longrightarrow> m_tmpdata (loadFiles [''a.tif'', ''b.tif''] exCommitted) \<noteq> []"
    unfolding l by simp
  have 4: "map_option (map filename \<circ> m_data)
         (loadBatch loadOk False None [''a.tif'', ''b.tif''] exCommitted)
       = Some [''a.tif'', ''b.tif'']"
    unfolding loadBatch_def l
    by (simp add: loadFilesDone_def futureFinished_def exCommitted_def mkManager_def
        mkItem_def loadOk_def loadResponseCurve_def mergeItem_def refreshEVOffset_def
        collectEVs_def checkSizes_def framesHaveSameSize_def emit_def newHdrCreationItem_def
        px_def mkFrame_def)
  show ?thesis
    using 1 2 4 loadBatch_skips_committed [OF 1 2 3, of False None] by blast
qed

text \<open>
  Claim C3, as stated, fails when the same path appears twice within one load call:
  paths are compared with the committed items only, both requests are scheduled, and both
  items are stored.
\<close>

theorem load_same_path_twice_counterexample:
  "map_option (storedCount ''a.tif'')
     (loadBatch loadOk False None [''a.tif'', ''a.tif''] (mkManager [] [])) = Some 2"
proof -
  have 1: "loadFiles [''a.tif'', ''a.tif''] (mkManager [] [])
     = (mkManager [] [newHdrCreationItem ''a.tif'', newHdrCreationItem ''a.tif''])
         \<lparr>loadFilesDoneConnected := 1, watcherRunning := True\<rparr>"
    by (simp add: loadFiles_def scheduleFile_def mkManager_def)
  show ?thesis
    unfolding loadBatch_def 1
    by (simp add: loadFilesDone_def futureFinished_def mkManager_def loadOk_def
        loadResponseCurve_def mergeItem_def refreshEVOffset_def collectEVs_def checkSizes_def
        framesHaveSameSize_def emit_def storedCount_def checkFileName_def
        newHdrCreationItem_def)
qed

text \<open>
  Claim C4. After a load batch that was not cancelled, if two items of the store as
  merged differ in width or height, \<^verbatim>\<open>loadFilesDone\<close> leaves the store empty and its last
  signal is the size-mismatch error; \<^verbatim>\<open>finishedLoadingFiles\<close> is not emitted.
\<close>

theorem loadFilesDone_size_mismatch:
  assumes "\<not> watcherCanceled s"
    and "m_isLoadResponseCurve s \<longrightarrow> m_tmpdata s \<noteq> []"
    and "a \<in> set (storedAfterMerge s)" and "b \<in> set (storedAfterMerge s)"
    and "\<not> sameSize a b"
  shows "\<exists>s'. loadFilesDone r s = Some s' \<and> m_data s' = [] \<and> m_tmpdata s' = []
           \<and> last (emitted s') = errorWhileLoading msgDifferentSize
           \<and> finishedLoadingFiles \<notin> set (drop (length (emitted s)) (emitted s'))"
proof -
  obtain s1 where s1: "loadResponseCurve r s = Some s1"
    using loadResponseCurve_Some [OF assms(2)] by blast
  let ?m = "refreshEVOffset (s1\<lparr>loadFilesDoneConnected := 0, m_data := storedAfterMerge s, m_tmpdata := []\<rparr>)"
  have d: "m_data ?m = storedAfterMerge s" and t: "m_tmpdata ?m = []"
    by (simp_all add: refreshEVOffset_frame)
  have e: "emitted ?m = emitted s1" by (simp add: refreshEVOffset_frame)
  have "framesHaveSameSize ?m = Some False"
    using assms(3-5) by (intro framesHaveSameSize_mismatch [of a _ b]) (simp_all add: d)
  then have c: "checkSizes ?m = Some (emit (errorWhileLoading msgDifferentSize) (?m\<lparr>m_data := []\<rparr>))"
    by (simp add: checkSizes_def)
  have pre: "emitted s1 = emitted s \<or> (\<exists>w. emitted s1 = emitted s @ [errorWhileLoading w])"
    using s1 by (auto simp: loadResponseCurve_def emit_def split: if_splits list.splits option.splits)
  show ?thesis
    unfolding merged_state [OF assms(1) s1] c
    using pre t e by (auto simp: emit_def)
qed

theorem loadFilesDone_size_mismatch_witness:
  "\<not> watcherCanceled exMismatch
   \<and> mkItem ''a.tif'' px (Some 0) True \<in> set (storedAfterMerge exMismatch)
   \<and> mkItem ''b.tif'' (sq [1, 1, 1, 1]) (Some 1) True \<in> set (storedAfterMerge exMismatch)
   \<and> \<not> sameSize (mkItem ''a.tif'' px (Some 0) True)
                   (mkItem ''b.tif'' (sq [1, 1, 1, 1]) (Some 1) True)
   \<and> (\<exists>s'. loadFilesDone None exMismatch = Some s' \<and> m_data s' = [] \<and> m_tmpdata s' = []
           \<and> last (emitted s') = errorWhileLoading msgDifferentSize
           \<and> finishedLoadingFiles \<notin> set (drop (length (emitted exMismatch)) (emitted s')))"
proof -
  have 1: "\<not> watcherCanceled exMismatch"
    and 2: "m_isLoadResponseCurve exMismatch \<longrightarrow> m_tmpdata exMismatch \<noteq> []"
    by (simp_all add: exMismatch_def mkManager_def)
  have 3: "mkItem ''a.tif'' px (Some 0) True \<in> set (storedAfterMerge exMismatch)"
    and 4: "mkItem ''b.tif'' (sq [1, 1, 1, 1]) (Some 1) True \<in> set (storedAfterMerge exMismatch)"
    by (simp_all add: storedAfterMerge_def exMismatch_def mkManager_def mkItem_def)
  have 5: "\<not> sameSize (mkItem ''a.tif'' px (Some 0) True)
                   (mkItem ''b.tif'' (sq [1, 1, 1, 1]) (Some 1) True)"
    by (simp add: sameSize_def mkItem_def px_def sq_def mkFrame_def)
  show ?thesis
    using 1 3 4 5 loadFilesDone_size_mismatch [OF 1 2 3 4 5, of None] by blast
qed

text \<open>
  Claim C8. When the future of a load batch is cancelled (by request or, as the comment in
  the source says, by an exception thrown in \<^verbatim>\<open>LoadFile\<close>), \<^verbatim>\<open>loadFilesDone\<close> discards the
  pending batch, emits the loading error, and leaves the committed items and their order
  as they were.
\<close>

theorem loadFilesDone_cancelled:
  assumes "watcherCanceled s"
  shows "\<exists>s'. loadFilesDone r s = Some s' \<and> m_tmpdata s' = [] \<and> m_data s' = m_data s
     \<and> m_evOffset s' = m_evOffset s
     \<and> emitted s' = emitted s @ [errorWhileLoading msgErrorLoading]"
  using assms by (simp add: loadFilesDone_def emit_def)

theorem loadFilesDone_cancelled_witness:
  "watcherCanceled (exMismatch\<lparr>watcherCanceled := True\<rparr>)
   \<and> (\<exists>s'. loadFilesDone None (exMismatch\<lparr>watcherCanceled := True\<rparr>) = Some s'
          \<and> m_tmpdata s' = [] \<and> m_data s' = [mkItem ''a.tif'' px (Some 0) True]
          \<and> emitted s' = [errorWhileLoading msgErrorLoading])"
  using loadFilesDone_cancelled [of "exMismatch\<lparr>watcherCanceled := True\<rparr>" None]
  by (auto simp add: exMismatch_def mkManager_def)

section \<open>The EV offset across the operations of the store\<close>

lemma knownEVs_emit [simp]: "knownEVs (emit sg s) = knownEVs s"
  by (simp add: knownEVs_def)

lemma offsetCurrent_emit: "offsetCurrent (emit sg s) = offsetCurrent s"
  by (simp add: offsetCurrent_def)

lemma removeFile_current:
  assumes "removeFile idx s = Some s'"
  shows "offsetCurrent s'"
proof -
  have "s' = refreshEVOffset
      (s\<lparr>m_data := take (nat idx) (m_data s) @ drop (Suc (nat idx)) (m_data s)\<rparr>)"
    using assms by (simp add: removeFile_def split: if_splits)
  then show ?thesis by (simp only: offsetCurrent_refresh)
qed

lemma checkSizes_current:
  assumes "checkSizes m = Some s'" and "m_data s' \<noteq> []" and "offsetCurrent m"
  shows "offsetCurrent s'"
proof -
  obtain same where same: "framesHaveSameSize m = Some same"
    using assms(1) by (cases "framesHaveSameSize m") (simp_all add: checkSizes_def)
  show ?thesis
  proof (cases same)
    case True
    then have "s' = emit finishedLoadingFiles m"
      using assms(1) by (simp add: checkSizes_def same)
    then show ?thesis
      using assms(3) by (simp only: offsetCurrent_emit)
  next
    case False
    then have "s' = emit (errorWhileLoading msgDifferentSize) (m\<lparr>m_data := []\<rparr>)"
      using assms(1) by (simp add: checkSizes_def same)
    then have "m_data s' = []" by simp
    with assms(2) show ?thesis by simp
  qed
qed

lemma loadFilesDone_current:
  assumes "loadFilesDone r s = Some s'" and "m_data s' \<noteq> []"
    and "watcherCanceled s \<longrightarrow> offsetCurrent s"
  shows "offsetCurrent s'"
proof (cases "watcherCanceled s")
  case True
  then have "s' = (emit (errorWhileLoading msgErrorLoading) s)
                \<lparr>loadFilesDoneConnected := 0, m_tmpdata := []\<rparr>"
    using assms(1) by (simp add: loadFilesDone_def)
  then have "m_evOffset s' = m_evOffset s" "knownEVs s' = knownEVs s"
    by (simp_all add: knownEVs_def)
  then show ?thesis
    using assms(3) True by (simp add: offsetCurrent_def)
next
  case False
  obtain s1 where s1: "loadResponseCurve r s = Some s1"
    using assms(1) False by (cases "loadResponseCurve r s") (simp_all add: loadFilesDone_def)
  have "checkSizes (refreshEVOffset
           (s1\<lparr>loadFilesDoneConnected := 0, m_data := storedAfterMerge s, m_tmpdata := []\<rparr>))
          = Some s'"
    using assms(1) merged_state [OF False s1] by simp
  then show ?thesis
    using assms(2) offsetCurrent_refresh by (rule checkSizes_current)
qed

text \<open>
  Claim C2, as the code has it. \<^verbatim>\<open>refreshEVOffset\<close> assigns the median of the known EVs
  (the element at index \<open>\<lceil>n/2\<rceil> - 1\<close> of the ascending sort), the value itself when
  exactly one EV is known, and 0 when none is. It runs at the end of \<^verbatim>\<open>removeFile\<close> and
  after the merge in \<^verbatim>\<open>loadFilesDone\<close>: after \<^verbatim>\<open>removeFile\<close>, and after a
  \<^verbatim>\<open>loadFilesDone\<close> that leaves a store that is not empty, the offset is current (on
  the cancelled path, where nothing is merged, it stays current if it was).
\<close>

theorem evOffset_median_after_refresh:
  "(knownEVs s = [] \<longrightarrow> m_evOffset (refreshEVOffset s) = 0)
   \<and> (\<forall>v. knownEVs s = [v] \<longrightarrow> m_evOffset (refreshEVOffset s) = v)
   \<and> (knownEVs s \<noteq> [] \<longrightarrow> m_evOffset (refreshEVOffset s) = specMedian (knownEVs s))
   \<and> (\<forall>idx s'. removeFile idx s = Some s' \<longrightarrow> offsetCurrent s')
   \<and> (\<forall>r s'. loadFilesDone r s = Some s' \<and> m_data s' \<noteq> []
                 \<and> (watcherCanceled s \<longrightarrow> offsetCurrent s) \<longrightarrow> offsetCurrent s')"
  using refreshEVOffset_assigns [of s] removeFile_current [of _ s] loadFilesDone_current [of _ s]
  by blast

theorem evOffset_median_after_refresh_witness:
  "knownEVs (mkManager [mkItem ''a'' px None True] []) = []
   \<and> m_evOffset (refreshEVOffset (mkManager [mkItem ''a'' px None True] [])) = 0
   \<and> knownEVs (mkManager [mkItem ''a'' px None True, mkItem ''b'' px (Some 7) True] []) = [7]
   \<and> m_evOffset (refreshEVOffset
         (mkManager [mkItem ''a'' px None True, mkItem ''b'' px (Some 7) True] [])) = 7
   \<and> knownEVs (mkManager [mkItem ''a'' px (Some 3) True, mkItem ''b'' px (Some 1) True,
         mkItem ''c'' px None True, mkItem ''d'' px (Some 5) True,
         mkItem ''e'' px (Some 2) True] []) \<noteq> []
   \<and> m_evOffset (refreshEVOffset
         (mkManager [mkItem ''a'' px (Some 3) True, mkItem ''b'' px (Some 1) True,
         mkItem ''c'' px None True, mkItem ''d'' px (Some 5) True,
         mkItem ''e'' px (Some 2) True] [])) = 2
   \<and> (\<exists>s'. removeFile 1 exStore3 = Some s' \<and> offsetCurrent s' \<and> offsetView s' = ([0, 2], 0))
   \<and> \<not> watcherCanceled exPendingOk
   \<and> (\<exists>s'. loadFilesDone None exPendingOk = Some s' \<and> m_data s' \<noteq> [] \<and> offsetCurrent s'
          \<and> offsetView s' = ([1, 3], 1))"
proof -
  let ?s0 = "mkManager [mkItem ''a'' px None True] []"
  let ?s1 = "mkManager [mkItem ''a'' px None True, mkItem ''b'' px (Some 7) True] []"
  let ?s4 = "mkManager [mkItem ''a'' px (Some 3) True, mkItem ''b'' px (Some 1) True,
         mkItem ''c'' px None True, mkItem ''d'' px (Some 5) True,
         mkItem ''e'' px (Some 2) True] []"
  have k0: "knownEVs ?s0 = []" and k1: "knownEVs ?s1 = [7]"
    and k4: "knownEVs ?s4 = [3, 1, 5, 2]"
    by (simp_all add: knownEVs_def mkManager_def mkItem_def)
  have o0: "m_evOffset (refreshEVOffset ?s0) = 0"
    using evOffset_median_after_refresh [of ?s0] k0 by blast
  have o1: "m_evOffset (refreshEVOffset ?s1) = 7"
    using evOffset_median_after_refresh [of ?s1] k1 by blast
  have "m_evOffset (refreshEVOffset ?s4) = specMedian (knownEVs ?s4)"
    using evOffset_median_after_refresh [of ?s4] k4 by simp
  then have o4: "m_evOffset (refreshEVOffset ?s4) = 2"
    unfolding k4 by (simp add: specMedian_def)
  have "map_option offsetView (removeFile 1 exStore3) = Some ([0, 2], 0)"
    by (simp add: removeFile_def offsetView_def knownEVs_def refreshEVOffset_def collectEVs_def
        exStore3_def mkManager_def mkItem_def Let_def)
  then obtain s' where r: "removeFile 1 exStore3 = Some s'" "offsetView s' = ([0, 2], 0)"
    by auto
  have rc: "offsetCurrent s'"
    using evOffset_median_after_refresh [of exStore3] r(1) by blast
  have nc: "\<not> watcherCanceled exPendingOk"
    by (simp add: exPendingOk_def mkManager_def)
  have "map_option (\<lambda>s. (m_data s \<noteq> [], offsetView s)) (loadFilesDone None exPendingOk)
          = Some (True, [1, 3], 1)"
    by (simp add: loadFilesDone_def exPendingOk_def mkManager_def mkItem_def
        loadResponseCurve_def mergeItem_def refreshEVOffset_def collectEVs_def checkSizes_def
        framesHaveSameSize_def emit_def offsetView_def knownEVs_def)
  then obtain s'' where l: "loadFilesDone None exPendingOk = Some s''" "m_data s'' \<noteq> []"
    "offsetView s'' = ([1, 3], 1)"
    by auto
  have lc: "offsetCurrent s''"
    using evOffset_median_after_refresh [of exPendingOk] l(1,2) nc by blast
  show ?thesis
    using k0 k1 k4 o0 o1 o4 r rc nc l lc by simp
qed

text \<open>
  Claim C2, as stated for every store state, fails where the store is emptied without a
  new call of \<^verbatim>\<open>refreshEVOffset\<close>. Loading \<^verbatim>\<open>a.tif\<close> (EV 1) and then \<^verbatim>\<open>b.tif\<close> of
  another size (EV 2) into an empty manager: the second batch refreshes the offset to 1 and
  then clears the store on the size mismatch, so no item has a known EV and the offset is
  1, not 0. \<^verbatim>\<open>reset\<close> leaves the offset of the emptied store as it was, too.
\<close>

theorem evOffset_stale_after_clear_counterexample:
  "map_option offsetView
     (Option.bind (loadBatch exLoader False None [''a.tif''] (mkManager [] []))
        (loadBatch exLoader False None [''b.tif''])) = Some ([], 1)
   \<and> offsetView (reset (refreshEVOffset exStore3)) = ([], 1)"
proof -
  have l1: "loadFiles [''a.tif''] (mkManager [] [])
     = (mkManager [] [newHdrCreationItem ''a.tif''])
         \<lparr>loadFilesDoneConnected := 1, watcherRunning := True\<rparr>"
    by (simp add: loadFiles_def scheduleFile_def mkManager_def)
  define s1 where "s1 = (mkManager [(newHdrCreationItem ''a.tif'')
        \<lparr>frame := px, hasEV := True, getEV := 1, isValid := True\<rparr>] [])
        \<lparr>m_evOffset := 1, emitted := [finishedLoadingFiles]\<rparr>"
  have b1: "loadBatch exLoader False None [''a.tif''] (mkManager [] []) = Some s1"
    unfolding loadBatch_def l1 s1_def
    by (simp add: loadFilesDone_def futureFinished_def mkManager_def exLoader_def
        loadResponseCurve_def mergeItem_def refreshEVOffset_def collectEVs_def checkSizes_def
        framesHaveSameSize_def emit_def newHdrCreationItem_def)
  have l2: "loadFiles [''b.tif''] s1
     = s1\<lparr>m_tmpdata := [newHdrCreationItem ''b.tif''], loadFilesDoneConnected := 1,
           watcherRunning := True, watcherCanceled := False\<rparr>"
    by (simp add: loadFiles_def scheduleFile_def s1_def mkManager_def checkFileName_def
        newHdrCreationItem_def)
  have b2: "map_option offsetView (loadBatch exLoader False None [''b.tif''] s1) = Some ([], 1)"
    unfolding loadBatch_def l2
    by (simp add: loadFilesDone_def futureFinished_def s1_def mkManager_def exLoader_def
        loadResponseCurve_def mergeItem_def refreshEVOffset_def collectEVs_def checkSizes_def
        framesHaveSameSize_def emit_def newHdrCreationItem_def px_def sq_def mkFrame_def
        offsetView_def knownEVs_def)
  have r: "offsetView (reset (refreshEVOffset exStore3)) = ([], 1)"
    by (simp add: offsetView_def knownEVs_def reset_def refreshEVOffset_def collectEVs_def
        exStore3_def mkManager_def mkItem_def Let_def)
  show ?thesis
    using b1 b2 r by simp
qed

section \<open>Results on ghost detection\<close>

lemma inner_set:
  "fold (\<lambda>i m. if F i then setPatch i j v m else m) [0..<n] m
     = (\<lambda>a b. if a < n \<and> b = j \<and> F a then v else m a b)"
proof (induction n)
  case 0
  show ?case by simp
next
  case (Suc n)
  show ?case
    by (simp add: Suc.IH setPatch_def fun_eq_iff less_Suc_eq)
qed

lemma outer_fold_aux:
  "fold (\<lambda>j (m::patches) a b. if a < n \<and> b = j \<and> F a j then v else m a b) [0..<k] m
     = (\<lambda>a b. if a < n \<and> b < k \<and> F a b then v else m a b)"
proof (induction k)
  case 0
  show ?case by simp
next
  case (Suc k)
  show ?case
    unfolding upt_Suc_append [OF le0] fold_append comp_apply Suc.IH
    by (auto simp: fun_eq_iff less_Suc_eq)
qed

lemma outer_set:
  "fold (\<lambda>j. fold (\<lambda>i m. if F i j then setPatch i j v m else m) [0..<n]) [0..<k] m
     = (\<lambda>a b. if a < n \<and> b < k \<and> F a b then v else m a b)"
proof -
  have "(\<lambda>j. fold (\<lambda>i m. if F i j then setPatch i j v m else m) [0..<n])
          = (\<lambda>j m a b. if a < n \<and> b = j \<and> F a j then v else m a b)"
    by (simp add: inner_set fun_eq_iff)
  then show ?thesis
    by (simp only: outer_fold_aux)
qed

lemma clearPatches_eq:
  "clearPatches G m = (\<lambda>a b. if a < G \<and> b < G then False else m a b)"
  using outer_set [of "\<lambda>i j. True" False G G m]
  by (simp add: clearPatches_def)

lemma comparePass_eq:
  "comparePass ops t HV items good gx gy h m
     = (\<lambda>a b. if a < agGridSize ops \<and> b < agGridSize ops
                  \<and> cellGhosted ops t HV items good gx gy h a b then True else m a b)"
  by (simp add: comparePass_def cellGhosted_def Let_def outer_set split: prod.splits)

lemma patchLoop_Some:
  assumes "0 \<le> good" "nat good < length items" "nat good < length HV"
    and "\<forall>h\<in>set hs. h < length HV"
  shows "patchLoop ops t HV items good gx gy hs m
     = Some (\<lambda>a b. if a < agGridSize ops \<and> b < agGridSize ops
                \<and> (\<exists>h\<in>set hs. int h \<noteq> good \<and> cellGhosted ops t HV items (nat good) gx gy h a b)
              then True else m a b)"
  using assms(4)
proof (induction hs arbitrary: m)
  case Nil
  show ?case by simp
next
  case (Cons h hs)
  then have IH: "\<And>m. patchLoop ops t HV items good gx gy hs m
     = Some (\<lambda>a b. if a < agGridSize ops \<and> b < agGridSize ops
                \<and> (\<exists>h\<in>set hs. int h \<noteq> good \<and> cellGhosted ops t HV items (nat good) gx gy h a b)
              then True else m a b)"
    by simp
  have hl: "h < length HV" using Cons.prems by simp
  show ?case
  proof (cases "int h = good")
    case True
    then show ?thesis by (auto simp: IH fun_eq_iff)
  next
    case False
    then show ?thesis
      using assms(1-3) hl
      by (simp add: IH comparePass_eq not_le not_less) (auto simp: fun_eq_iff)
  qed
qed

lemma patchLoop_rel:
  assumes "\<forall>a<agGridSize ops. \<forall>b<agGridSize ops. m1 a b = m2 a b"
  shows "rel_option (\<lambda>x y. \<forall>a<agGridSize ops. \<forall>b<agGridSize ops. x a b = y a b)
           (patchLoop ops t HV items good gx gy hs m1)
           (patchLoop ops t HV items good gx gy hs m2)"
  using assms
proof (induction hs arbitrary: m1 m2)
  case Nil
  then show ?case by simp
next
  case (Cons h hs)
  have "\<forall>a<agGridSize ops. \<forall>b<agGridSize ops.
          comparePass ops t HV items (nat good) gx gy h m1 a b
            = comparePass ops t HV items (nat good) gx gy h m2 a b"
    using Cons.prems by (simp add: comparePass_eq)
  then show ?case
    using Cons.IH Cons.prems by simp
qed

lemma count_inner:
  "fold (\<lambda>j (count::nat). if P j then count + 1 else count) js c = c + length (filter P js)"
  by (induction js arbitrary: c) simp_all

lemma count_outer:
  "fold (\<lambda>i (c::nat). c + f i) is c = c + sum_list (map f is)"
  by (induction "is" arbitrary: c) simp_all

lemma countPatches_eq:
  "countPatches G m = sum_list (map (\<lambda>i. length (filter (\<lambda>j. m i j) [0..<G])) [0..<G])"
proof -
  have "(\<lambda>i. fold (\<lambda>j (count::nat). if m i j = True then count + 1 else count) [0..<G])
          = (\<lambda>i c. c + length (filter (\<lambda>j. m i j) [0..<G]))"
    by (simp add: count_inner fun_eq_iff)
  then show ?thesis
    by (simp add: countPatches_def count_outer)
qed

lemma countPatches_card: "countPatches G m = card (gridCells G m)"
proof -
  have row: "length (filter (\<lambda>j. m i j) [0..<G]) = card {j. j < G \<and> m i j}" for i
    by (simp add: distinct_length_filter) (rule arg_cong [where f = card], auto)
  have "gridCells G m = (SIGMA i:{..<G}. {j. j < G \<and> m i j})"
    by (auto simp: gridCells_def)
  then have "card (gridCells G m) = (\<Sum>i<G. card {j. j < G \<and> m i j})"
    by simp
  also have "\<dots> = sum_list (map (\<lambda>i. card {j. j < G \<and> m i j}) [0..<G])"
    by (simp add: sum_list_distinct_conv_sum_set atLeast0LessThan)
  finally show ?thesis
    by (simp add: countPatches_eq row)
qed

lemma countPatches_mono:
  assumes "\<And>i j. i < G \<Longrightarrow> j < G \<Longrightarrow> m2 i j \<Longrightarrow> m1 i j"
  shows "countPatches G m2 \<le> countPatches G m1"
proof -
  have "gridCells G m2 \<subseteq> gridCells G m1"
    using assms by (auto simp: gridCells_def)
  moreover have "finite (gridCells G m1)"
  proof (rule finite_subset)
    show "gridCells G m1 \<subseteq> {..<G} \<times> {..<G}" by (auto simp: gridCells_def)
  qed simp
  ultimately show ?thesis
    by (simp add: countPatches_card card_mono)
qed

lemma countPatches_cong:
  assumes "\<And>i j. i < G \<Longrightarrow> j < G \<Longrightarrow> m2 i j = m1 i j"
  shows "countPatches G m2 = countPatches G m1"
  using assms by (intro antisym countPatches_mono) simp_all

lemma copyPatches_cong:
  assumes "\<And>i j. i < G \<Longrightarrow> j < G \<Longrightarrow> m2 i j = m1 i j"
  shows "copyPatches G m2 = copyPatches G m1"
  using assms by (simp add: copyPatches_def)

lemma computePatches_Some:
  assumes "patchesPre ops HV s"
  shows "computePatches ops t HV s =
     Some (s\<lparr>m_agGoodImageIndex := findIndex ops (hueSquaredMean ops (m_data s)) (int (length (m_data s))),
              m_patches := patchesResult ops t HV s\<rparr>,
           copyPatches (agGridSize ops) (patchesResult ops t HV s),
           real (countPatches (agGridSize ops) (patchesResult ops t HV s))
             / real (agGridSize ops * agGridSize ops) * 100,
           findIndex ops (hueSquaredMean ops (m_data s)) (int (length (m_data s))))"
proof -
  let ?good = "findIndex ops (hueSquaredMean ops (m_data s)) (int (length (m_data s)))"
  have pl: "patchLoop ops t HV (m_data s) ?good gx gy [0..<length (m_data s)] m
     = Some (\<lambda>a b. if a < agGridSize ops \<and> b < agGridSize ops
                \<and> (\<exists>h\<in>set [0..<length (m_data s)]. int h \<noteq> ?good
                       \<and> cellGhosted ops t HV (m_data s) (nat ?good) gx gy h a b)
              then True else m a b)" for gx gy m
    using assms by (intro patchLoop_Some) (auto simp: patchesPre_def)
  have m: "(\<lambda>a b. if a < agGridSize ops \<and> b < agGridSize ops
                \<and> (\<exists>h\<in>set [0..<length (m_data s)]. int h \<noteq> ?good
                       \<and> cellGhosted ops t HV (m_data s) (nat ?good)
                             (getWidth (frame (m_data s ! 0)) div agGridSize ops)
                             (getHeight (frame (m_data s ! 0)) div agGridSize ops) h a b)
              then True else clearPatches (agGridSize ops) (m_patches s) a b)
        = patchesResult ops t HV s"
    by (auto simp: patchesResult_def anyCandidateGhosted_def list_ex_iff clearPatches_eq fun_eq_iff)
  have g: "\<not> (m_data s = [] \<or> agGridSize ops = 0)" "2 \<le> length (m_data s)"
    using assms by (auto simp: patchesPre_def)
  show ?thesis
    unfolding computePatches_def Let_def pl m
    by (simp add: g)
qed

lemma rel_option_map_eq:
  assumes "rel_option R x y" and "\<And>a b. R a b \<Longrightarrow> f a = f b"
  shows "map_option f x = map_option f y"
  using assms by (cases x; cases y) simp_all

lemma computePatches_out:
  "map_option snd (computePatches ops t HV s) =
     (if m_data s = [] \<or> agGridSize ops = 0 \<or> \<not> 2 \<le> length (m_data s) then None
      else map_option
             (\<lambda>m. (copyPatches (agGridSize ops) m,
                   real (countPatches (agGridSize ops) m)
                     / real (agGridSize ops * agGridSize ops) * 100,
                   findIndex ops (hueSquaredMean ops (m_data s)) (int (length (m_data s)))))
             (patchLoop ops t HV (m_data s)
                (findIndex ops (hueSquaredMean ops (m_data s)) (int (length (m_data s))))
                (getWidth (frame (m_data s ! 0)) div agGridSize ops)
                (getHeight (frame (m_data s ! 0)) div agGridSize ops)
                [0..<length (m_data s)] (clearPatches (agGridSize ops) (m_patches s))))"
  unfolding computePatches_def Let_def
  by (simp split: option.split)

lemma upt3: "[0..<3] = [0, 1, 2]" "[0..<2] = [0, 1]"
  by (simp_all add: upt_rec)

lemma exPre: "patchesPre exGhost exHV exStore3"
  by (simp add: patchesPre_def exGhost_def exHV_def exStore3_def mkManager_def)

lemma ex_eval2:
  "map_option snd (computePatches exGhost 2 exHV exStore3) = Some ([[False, False], [True, False]], 25, 0)"
  unfolding computePatches_Some [OF exPre]
  by (simp add: copyPatches_def countPatches_eq patchesResult_def anyCandidateGhosted_def
      cellGhosted_def comparePatchesSpec_def exDeviation_def exBaseline_def
      exGhost_def exHV_def exStore3_def mkManager_def mkItem_def sq_def mkFrame_def upt3)

lemma ex_evalhalf:
  "map_option snd (computePatches exGhost (1/2) exHV exStore3) = Some ([[False, False], [True, True]], 50, 0)"
  unfolding computePatches_Some [OF exPre]
  by (simp add: copyPatches_def countPatches_eq patchesResult_def anyCandidateGhosted_def
      cellGhosted_def comparePatchesSpec_def exDeviation_def exBaseline_def
      exGhost_def exHV_def exStore3_def mkManager_def mkItem_def sq_def mkFrame_def upt3)

text \<open>
  Claim C5. The outputs of \<^verbatim>\<open>computePatches\<close> (mask, percentage, reference index) are a
  function of the items, the threshold and the offsets: two managers with the same items
  give the same outputs, whatever \<^verbatim>\<open>m_patches\<close> and \<^verbatim>\<open>m_agGoodImageIndex\<close> held before.
\<close>

theorem computePatches_deterministic:
  assumes "m_data s1 = m_data s2"
  shows "map_option snd (computePatches ops threshold HV_offset s1)
           = map_option snd (computePatches ops threshold HV_offset s2)"
proof -
  let ?G = "agGridSize ops"
  have "\<forall>a<?G. \<forall>b<?G. clearPatches ?G (m_patches s1) a b = clearPatches ?G (m_patches s2) a b"
    by (simp add: clearPatches_eq)
  then have rel: "rel_option (\<lambda>x y. \<forall>a<?G. \<forall>b<?G. x a b = y a b)
      (patchLoop ops threshold HV_offset items good gx gy hs (clearPatches ?G (m_patches s1)))
      (patchLoop ops threshold HV_offset items good gx gy hs (clearPatches ?G (m_patches s2)))"
    for items good gx gy hs
    by (rule patchLoop_rel)
  have out: "(copyPatches ?G m1, real (countPatches ?G m1) / real (?G * ?G) * 100, good)
      = (copyPatches ?G m2, real (countPatches ?G m2) / real (?G * ?G) * 100, good)"
    if "\<forall>a<?G. \<forall>b<?G. m1 a b = m2 a b" for m1 m2 and good :: int
    using that countPatches_cong [of ?G m1 m2] copyPatches_cong [of ?G m1 m2] by simp
  show ?thesis
    unfolding computePatches_out assms
    by (simp only: rel_option_map_eq [OF rel out])
qed

theorem computePatches_deterministic_witness:
  "m_data exDirty = m_data exStore3
   \<and> m_patches exDirty 0 0 \<noteq> m_patches exStore3 0 0
   \<and> map_option snd (computePatches exGhost 2 exHV exDirty)
       = map_option snd (computePatches exGhost 2 exHV exStore3)
   \<and> map_option snd (computePatches exGhost 2 exHV exStore3)
       = Some ([[False, False], [True, False]], 25, 0)"
proof -
  have 1: "m_data exDirty = m_data exStore3"
    by (simp add: exDirty_def)
  have 2: "m_patches exDirty 0 0 \<noteq> m_patches exStore3 0 0"
    by (simp add: exDirty_def exStore3_def mkManager_def)
  show ?thesis
    using 1 2 ex_eval2 computePatches_deterministic [OF 1, of exGhost 2 exHV] by simp
qed

text \<open>
  Claim C6. With \<^verbatim>\<open>comparePatches\<close> as the specification describes it and a baseline
  that is not negative, the number of flagged cells and the reported percentage do not
  grow when the threshold grows.
\<close>

theorem computePatches_threshold_antitone:
  assumes "t1 \<le> t2"
    and "baselineNonneg ops baseline HV_offset s"
    and "patchesPre ops HV_offset s"
  shows "\<exists>s1 out1 percent1 good1 s2 out2 percent2 good2.
           computePatches (ops\<lparr>comparePatches := comparePatchesSpec deviation baseline\<rparr>)
               t1 HV_offset s = Some (s1, out1, percent1, good1)
           \<and> computePatches (ops\<lparr>comparePatches := comparePatchesSpec deviation baseline\<rparr>)
               t2 HV_offset s = Some (s2, out2, percent2, good2)
           \<and> countPatches (agGridSize ops) (m_patches s2)
                \<le> countPatches (agGridSize ops) (m_patches s1)
           \<and> percent2 \<le> percent1"
proof -
  let ?ops = "ops\<lparr>comparePatches := comparePatchesSpec deviation baseline\<rparr>"
  let ?good = "findIndex ops (hueSquaredMean ops (m_data s)) (int (length (m_data s)))"
  have pre: "patchesPre ?ops HV_offset s"
    using assms(3) by (simp add: patchesPre_def)
  have cell: "cellGhosted ?ops t1 HV_offset (m_data s) (nat ?good) gx gy h i j"
    if "h < length (m_data s)" "cellGhosted ?ops t2 HV_offset (m_data s) (nat ?good) gx gy h i j"
    for gx gy h i j
  proof -
    have "0 \<le> pairBaseline ops baseline HV_offset (m_data s) (nat ?good) h"
      using assms(2) that(1) by (simp add: baselineNonneg_def list_all_iff)
    then have "t1 * pairBaseline ops baseline HV_offset (m_data s) (nat ?good) h
                 \<le> t2 * pairBaseline ops baseline HV_offset (m_data s) (nat ?good) h"
      using assms(1) by (simp add: mult_right_mono)
    then show ?thesis
      using that(2)
      by (simp add: cellGhosted_def pairBaseline_def comparePatchesSpec_def Let_def
          split: prod.splits)
  qed
  have imp: "patchesResult ?ops t2 HV_offset s i j \<Longrightarrow> patchesResult ?ops t1 HV_offset s i j"
    if "i < agGridSize ops" "j < agGridSize ops" for i j
    using that cell by (auto simp: patchesResult_def anyCandidateGhosted_def list_ex_iff)
  have cnt: "countPatches (agGridSize ops) (patchesResult ?ops t2 HV_offset s)
               \<le> countPatches (agGridSize ops) (patchesResult ?ops t1 HV_offset s)"
    by (rule countPatches_mono) (rule imp)
  then have "real (countPatches (agGridSize ops) (patchesResult ?ops t2 HV_offset s))
                 / real (agGridSize ops * agGridSize ops) * 100
               \<le> real (countPatches (agGridSize ops) (patchesResult ?ops t1 HV_offset s))
                 / real (agGridSize ops * agGridSize ops) * 100"
    by (simp add: divide_right_mono)
  with cnt show ?thesis
    unfolding computePatches_Some [OF pre] by simp
qed

theorem computePatches_threshold_antitone_witness:
  "(1 / 2 :: real) \<le> 2 \<and> baselineNonneg exGhost exBaseline exHV exStore3
   \<and> patchesPre exGhost exHV exStore3
   \<and> (\<exists>s1 out1 percent1 good1 s2 out2 percent2 good2.
           computePatches exGhost (1 / 2) exHV exStore3 = Some (s1, out1, percent1, good1)
           \<and> computePatches exGhost 2 exHV exStore3 = Some (s2, out2, percent2, good2)
           \<and> countPatches 2 (m_patches s2) \<le> countPatches 2 (m_patches s1)
           \<and> percent2 \<le> percent1 \<and> percent1 = 50 \<and> percent2 = 25)"
proof -
  have b: "baselineNonneg exGhost exBaseline exHV exStore3"
    by (simp add: baselineNonneg_def pairBaseline_def exBaseline_def exGhost_def exStore3_def
        mkManager_def upt3)
  have e: "exGhost\<lparr>comparePatches := comparePatchesSpec exDeviation exBaseline\<rparr> = exGhost"
    by (simp add: exGhost_def)
  have g: "agGridSize exGhost = 2" by (simp add: exGhost_def)
  have le: "(1 / 2 :: real) \<le> 2" by simp
  obtain s1 out1 percent1 good1 s2 out2 percent2 good2
    where r: "computePatches exGhost (1 / 2) exHV exStore3 = Some (s1, out1, percent1, good1)"
      "computePatches exGhost 2 exHV exStore3 = Some (s2, out2, percent2, good2)"
      "countPatches 2 (m_patches s2) \<le> countPatches 2 (m_patches s1)"
      "percent2 \<le> percent1"
    using computePatches_threshold_antitone [OF le b exPre, of exDeviation] unfolding e g
    by blast
  have "percent1 = 50" "percent2 = 25"
    using ex_evalhalf ex_eval2 r(1,2) by simp_all
  then show ?thesis
    using le b exPre r by blast
qed

text \<open>
  Claim C7. After \<^verbatim>\<open>computePatches\<close> a cell of the grid is flagged exactly when
  \<^verbatim>\<open>comparePatches\<close> flags it for some image other than the reference image, the mask
  handed to the caller is the stored one, and the percentage is the number of flagged
  cells divided by the number of cells, times 100.
\<close>

theorem computePatches_or_percent:
  assumes "patchesPre ops HV_offset s"
  shows "\<exists>s' out percent good.
           computePatches ops threshold HV_offset s = Some (s', out, percent, good)
           \<and> (\<forall>i<agGridSize ops. \<forall>j<agGridSize ops.
                 m_patches s' i j
                   = (\<exists>h<length (m_data s). int h \<noteq> good
                        \<and> cellGhosted ops threshold HV_offset (m_data s) (nat good)
                            (getWidth (frame (m_data s ! 0)) div agGridSize ops)
                            (getHeight (frame (m_data s ! 0)) div agGridSize ops) h i j))
           \<and> (\<forall>i<agGridSize ops. \<forall>j<agGridSize ops. out ! i ! j = m_patches s' i j)
           \<and> percent = real (card (gridCells (agGridSize ops) (m_patches s')))
                         / real (agGridSize ops * agGridSize ops) * 100"
  unfolding computePatches_Some [OF assms]
  by (auto simp: patchesResult_def anyCandidateGhosted_def list_ex_iff countPatches_card
      copyPatches_def)

theorem computePatches_or_percent_witness:
  "patchesPre exGhost exHV exStore3
   \<and> (\<exists>s' out percent good.
           computePatches exGhost 2 exHV exStore3 = Some (s', out, percent, good)
           \<and> out = [[False, False], [True, False]] \<and> percent = 25 \<and> good = 0
           \<and> m_patches s' 1 0
           \<and> cellGhosted exGhost 2 exHV (m_data exStore3) 0 1 1 1 1 0
           \<and> percent = real (card (gridCells 2 (m_patches s'))) / real (2 * 2) * 100)"
proof -
  obtain s' out percent good
    where r: "computePatches exGhost 2 exHV exStore3 = Some (s', out, percent, good)"
      and f: "\<forall>i<agGridSize exGhost. \<forall>j<agGridSize exGhost.
                 m_patches s' i j
                   = (\<exists>h<length (m_data exStore3). int h \<noteq> good
                        \<and> cellGhosted exGhost 2 exHV (m_data exStore3) (nat good)
                            (getWidth (frame (m_data exStore3 ! 0)) div agGridSize exGhost)
                            (getHeight (frame (m_data exStore3 ! 0)) div agGridSize exGhost) h i j)"
      and p: "percent = real (card (gridCells (agGridSize exGhost) (m_patches s')))
                         / real (agGridSize exGhost * agGridSize exGhost) * 100"
    using computePatches_or_percent [OF exPre, of 2] by blast
  have v: "out = [[False, False], [True, False]]" "percent = 25" "good = 0"
    using ex_eval2 r by simp_all
  have c: "cellGhosted exGhost 2 exHV (m_data exStore3) 0 1 1 1 1 0"
    by (simp add: cellGhosted_def comparePatchesSpec_def exDeviation_def exBaseline_def
        exGhost_def exHV_def exStore3_def mkManager_def mkItem_def sq_def mkFrame_def)
  have g: "agGridSize exGhost = 2"
    "getWidth (frame (m_data exStore3 ! 0)) = 2" "getHeight (frame (m_data exStore3 ! 0)) = 2"
    "length (m_data exStore3) = 3"
    by (simp_all add: exGhost_def exStore3_def mkManager_def mkItem_def sq_def mkFrame_def)
  have "m_patches s' 1 0"
    using f c v(3) unfolding g by (auto intro: exI [of _ 1])
  then show ?thesis
    using exPre r v c p unfolding g by simp
qed

section \<open>Results on the deghosting solver\<close>

lemma startProgress_fields [simp]:
  "m_data (startProgress s) = m_data s" "m_tmpdata (startProgress s) = m_tmpdata s"
  "m_evOffset (startProgress s) = m_evOffset s" "m_agMask (startProgress s) = m_agMask s"
  by (simp_all add: startProgress_def)

lemma createHdr_startProgress [simp]: "createHdr ops (startProgress s) = createHdr ops s"
  by (simp add: createHdr_def)

lemma createHdr_emit [simp]: "createHdr ops (emit sg s) = createHdr ops s"
  by (simp add: createHdr_def)

lemma reset_store [simp]: "m_data (reset s) = []" "m_tmpdata (reset s) = []"
  by (simp_all add: reset_def Let_def)

lemma checkpoint_store:
  assumes "\<And>s'. m_data s' = [] \<and> m_tmpdata s' = [] \<Longrightarrow>
             m_data (fst (k s')) = [] \<and> m_tmpdata (fst (k s')) = []"
    and "m_data s = [] \<and> m_tmpdata s = []"
  shows "m_data (fst (checkpoint v c s k)) = [] \<and> m_tmpdata (fst (checkpoint v c s k)) = []"
  using assms by (simp add: checkpoint_def Let_def)

lemma solveAndReconstruct_store:
  assumes "m_data s = [] \<and> m_tmpdata s = []"
  shows "m_data (fst (solveAndReconstruct ops w h canceled stages s)) = []
         \<and> m_tmpdata (fst (solveAndReconstruct ops w h canceled stages s)) = []"
  unfolding solveAndReconstruct_def Let_def
  by (cases stages) (auto intro!: checkpoint_store assms simp: split_beta)

lemma solveAndReconstruct_canceled:
  assumes "1 \<le> k" "k < 7" "canceled k"
  shows "snd (solveAndReconstruct ops w h canceled stages s) = None"
proof -
  from assms(1,2) consider "k = 1" | "k = 2" | "k = 3" | "k = 4" | "k = 5" | "k = 6"
    by linarith
  then show ?thesis
    using assms(3)
    by cases (auto simp: solveAndReconstruct_def checkpoint_def Let_def split_beta)
qed

lemma doAntiGhosting_canceled0:
  assumes "agPre ops G h0 manualAg s" "canceled 0"
  shows "doAntiGhosting ops G patches h0 manualAg canceled s
     = Some (emit (progressValueChanged 20)
               (startProgress s), None)"
  using assms by (simp add: doAntiGhosting_def agPre_def Let_def)

lemma doAntiGhosting_run:
  assumes "agPre ops G h0 manualAg s" "\<not> canceled 0"
  shows "\<exists>st. doAntiGhosting ops G patches h0 manualAg canceled s
     = Some (solveAndReconstruct ops (getWidth (frame (m_data s ! 0)))
               (getHeight (frame (m_data s ! 0))) canceled st
               (reset (emit (progressValueChanged 20)
                  (startProgress s))))"
proof -
  let ?w = "getWidth (frame (m_data s ! 0))" and ?h = "getHeight (frame (m_data s ! 0))"
  have stx: "\<exists>st. channelStages ops ?w ?h bl (createHdr ops s) (frame (m_data s ! nat h0)) = Some st"
    for bl
    using assms by (auto simp: agPre_def channelStages_def)
  have pre: "m_data s \<noteq> []" "G \<noteq> 0" "\<not> (h0 < 0 \<or> length (m_data s) \<le> nat h0)"
    "\<not> (manualAg \<and> m_agMask s = None)"
    using assms(1) by (auto simp: agPre_def)
  show ?thesis
  proof (cases manualAg)
    case True
    obtain st where "channelStages ops ?w ?h
        (\<lambda>g gGood. blendGradientsMask ops g gGood (the (m_agMask s)))
        (createHdr ops s) (frame (m_data s ! nat h0)) = Some st"
      using stx by blast
    then have "doAntiGhosting ops G patches h0 manualAg canceled s
       = Some (solveAndReconstruct ops ?w ?h canceled st
                 (reset (emit (progressValueChanged 20)
                    (startProgress s))))"
      unfolding doAntiGhosting_def Let_def
      using pre assms(2) True by simp
    then show ?thesis by (rule exI [of _ st])
  next
    case False
    obtain st where "channelStages ops ?w ?h
        (\<lambda>g gGood. blendGradientsPatches ops g gGood patches (?w div G) (?h div G))
        (createHdr ops s) (frame (m_data s ! nat h0)) = Some st"
      using stx by blast
    then have "doAntiGhosting ops G patches h0 manualAg canceled s
       = Some (solveAndReconstruct ops ?w ?h canceled st
                 (reset (emit (progressValueChanged 20)
                    (startProgress s))))"
      unfolding doAntiGhosting_def Let_def
      using pre assms(2) False by simp
    then show ?thesis by (rule exI [of _ st])
  qed
qed

lemma stageRed_specStage: "stageRed ops width height blend Rc Good_Rc = specStage ops blend Rc Good_Rc"
  by (simp add: stageRed_def specStage_def Let_def)

lemma stageBlue_specStage: "stageBlue ops width height blend Bc Good_Bc = specStage ops blend Bc Good_Bc"
  by (simp add: stageBlue_def specStage_def Let_def)

lemma green_block_differs:
  "stageGreen exSolver 2 1 blend [1, 2] [55, 89] \<noteq> specStage exSolver blend [3, 5] [55, 89]"
proof
  assume "stageGreen exSolver 2 1 blend [1, 2] [55, 89] = specStage exSolver blend [3, 5] [55, 89]"
  then have "logIrradiance (stageGreen exSolver 2 1 blend [1, 2] [55, 89])
               = logIrradiance (specStage exSolver blend [3, 5] [55, 89])"
    by simp
  then show False
    by (simp add: stageGreen_def specStage_def exSolver_def Let_def)
qed

text \<open>
  Claim C1 does not hold of the code. For a fused frame with channels \<open>[1, 2]\<close>,
  \<open>[3, 5]\<close>, \<open>[8, 13]\<close> and a reference frame with channels \<open>[21, 34]\<close>, \<open>[55, 89]\<close>,
  \<open>[144, 233]\<close>, whatever the array functions are: the red block works on the first
  channels of both frames, as the claim says; the green block takes the log-irradiance of
  the first channel of the fused frame again, not of \<open>[3, 5]\<close>, and takes the reference
  gradient of an array that nothing has been written to, not of the log-irradiance of
  \<open>[55, 89]\<close>; the blue block takes the first channel of the fused frame again, not
  \<open>[8, 13]\<close>.
\<close>

theorem doAntiGhosting_channel_inputs:
  "map_option (\<lambda>(R, G, B). (logIrradiance R, gradientGood R, logIrradiance G, gradientGood G,
                              logIrradiance B, gradientGood B))
     (channelStages ops 2 1 blend (mkFrame 2 1 [1, 2] [3, 5] [8, 13])
        (mkFrame 2 1 [21, 34] [55, 89] [144, 233]))
   = Some (computeLogIrradiance ops [1, 2],
           computeGradient ops (computeLogIrradiance ops [21, 34]),
           computeLogIrradiance ops [1, 2],
           computeGradient ops (newArray2Df ops 2 1),
           computeLogIrradiance ops [1, 2],
           computeGradient ops (computeLogIrradiance ops [144, 233]))"
  by (simp add: channelStages_def getXYZChannels_def mkFrame_def stageRed_def stageGreen_def
      stageBlue_def Let_def)

lemma exAgPre: "agPre exSolver 2 0 False exStore3"
  by (simp add: agPre_def getXYZChannels_def exSolver_def exStore3_def mkManager_def mkItem_def
      sq_def mkFrame_def createHdr_def exFusion_def)

text \<open>
  Claim C9. When \<^verbatim>\<open>ph->canceled()\<close> answers true at any of the seven checkpoints,
  \<^verbatim>\<open>doAntiGhosting\<close> returns the null frame.
\<close>

theorem doAntiGhosting_canceled_returns_null:
  assumes "agPre ops gridSize h0 manualAg s" and "k < 7" and "canceled k"
  shows "\<exists>s'. doAntiGhosting ops gridSize patches h0 manualAg canceled s = Some (s', None)"
proof (cases "canceled 0")
  case True
  then show ?thesis
    using doAntiGhosting_canceled0 [where canceled = canceled, OF assms(1)] by blast
next
  case False
  then have k: "1 \<le> k" using assms(3) by (cases k) auto
  obtain st where "doAntiGhosting ops gridSize patches h0 manualAg canceled s
     = Some (solveAndReconstruct ops (getWidth (frame (m_data s ! 0)))
               (getHeight (frame (m_data s ! 0))) canceled st
               (reset (emit (progressValueChanged 20)
                  (startProgress s))))"
    using doAntiGhosting_run [where canceled = canceled and patches = patches, OF assms(1) False]
    by blast
  then show ?thesis
    using solveAndReconstruct_canceled [where canceled = canceled and k = k, OF k assms(2,3)]
    by (metis prod.collapse)
qed

theorem doAntiGhosting_canceled_returns_null_witness:
  "agPre exSolver 2 0 False exStore3 \<and> (3::nat) < 7 \<and> (\<lambda>k. k = (3::nat)) 3
   \<and> (\<exists>s'. doAntiGhosting exSolver 2 [[False, False], [True, False]] 0 False (\<lambda>k. k = 3)
                exStore3 = Some (s', None))"
proof -
  have k: "(3::nat) < 7" and c: "(\<lambda>k. k = (3::nat)) 3" by simp_all
  show ?thesis
    using exAgPre doAntiGhosting_canceled_returns_null
      [where canceled = "\<lambda>k. k = (3::nat)" and k = 3, OF exAgPre k c]
    by simp
qed

text \<open>
  Claim C10. A call of \<^verbatim>\<open>doAntiGhosting\<close> that is not cancelled at its first checkpoint
  calls \<^verbatim>\<open>reset\<close>: afterwards the committed and the pending items are gone and
  \<^verbatim>\<open>availableInputFiles\<close> is 0, whatever the call returns.
\<close>

theorem doAntiGhosting_clears_store:
  assumes "agPre ops gridSize h0 manualAg s" and "\<not> canceled 0"
  shows "\<exists>s' result. doAntiGhosting ops gridSize patches h0 manualAg canceled s = Some (s', result)
           \<and> m_data s' = [] \<and> m_tmpdata s' = [] \<and> availableInputFiles s' = 0"
proof -
  obtain st where "doAntiGhosting ops gridSize patches h0 manualAg canceled s
     = Some (solveAndReconstruct ops (getWidth (frame (m_data s ! 0)))
               (getHeight (frame (m_data s ! 0))) canceled st
               (reset (emit (progressValueChanged 20)
                  (startProgress s))))"
    using doAntiGhosting_run [where canceled = canceled and patches = patches, OF assms]
    by blast
  then show ?thesis
    using solveAndReconstruct_store [of "reset (emit (progressValueChanged 20)
                  (startProgress s))"]
    by (simp add: availableInputFiles_def) (metis prod.collapse)
qed

theorem doAntiGhosting_clears_store_witness:
  "agPre exSolver 2 0 False exStore3 \<and> availableInputFiles exStore3 = 3
   \<and> (\<exists>s' result. doAntiGhosting exSolver 2 [[False, False], [True, False]] 0 False
                (\<lambda>k. False) exStore3 = Some (s', result)
           \<and> m_data s' = [] \<and> m_tmpdata s' = [] \<and> availableInputFiles s' = 0)"
proof -
  have c: "\<not> (\<lambda>k::nat. False) 0" by simp
  have a: "availableInputFiles exStore3 = 3"
    by (simp add: availableInputFiles_def exStore3_def mkManager_def)
  show ?thesis
    using exAgPre a doAntiGhosting_clears_store
      [where canceled = "\<lambda>k. False", OF exAgPre c] by simp
qed

end
